theory Spec2Isabelle
  imports Complex_Main
begin

section \<open>Configuration (config.py)\<close>

text \<open>
  The numeric entries of \<open>SIMULATION_CONFIG\<close> that the simulation engine reads.
  Python floats are modelled as reals; the integer entries that only ever take part in
  float arithmetic are reals too.
\<close>

record config =
  border_length :: real
  border_width :: real
  n_sensor_nodes :: nat
  n_cluster_heads :: nat
  sensor_range :: real
  camera_node_percentage :: real
  communication_range :: real
  confidence_threshold :: real
  initial_battery_min :: real
  initial_battery_max :: real
  solar_recharge_prob :: real
  solar_recharge_amount :: real
  duration_min :: int
  duration_max :: int
  spawn_probability :: real
  cycle_duration :: real

definition SIMULATION_CONFIG :: config where
  "SIMULATION_CONFIG =
     \<lparr> border_length = 1000, border_width = 250,
       n_sensor_nodes = 32, n_cluster_heads = 4,
       sensor_range = 120, camera_node_percentage = 0.25,
       communication_range = 200, confidence_threshold = 0.95,
       initial_battery_min = 85, initial_battery_max = 100,
       solar_recharge_prob = 0.4, solar_recharge_amount = 12,
       duration_min = 30, duration_max = 60,
       spawn_probability = 0.3, cycle_duration = 1 \<rparr>"

text \<open>The keys of \<open>config["intrusion"]["probabilities"]\<close>, in dictionary order.\<close>

definition intrusion_type_keys :: "string list" where
  "intrusion_type_keys = [''human'', ''animal'', ''vehicle'']"

section \<open>The gateway (ai\_model.py)\<close>

datatype py_exception = ValueError | KeyError | ModelError

text \<open>
  The trained random forest is a black box: \<open>predict\<close> returns a label,
  \<open>predict_proba\<close> the class probabilities, and either call may raise.
\<close>

record classifier =
  predict :: "real list \<Rightarrow> py_exception + string"
  predict_proba :: "real list \<Rightarrow> py_exception + real list"

text \<open>
  The dictionary built by \<open>ClusterHead.collect_cluster_data\<close>. The summary is itself a
  dictionary from statistic names to numbers; \<open>sensor_summary = None\<close> is a dictionary
  without the key \<open>'sensor_summary'\<close>.
\<close>

record cluster_data =
  cluster_id :: string
  cluster_position :: "real \<times> real"
  total_nodes :: nat
  active_members :: "string list"
  sensor_summary :: "(string \<rightharpoonup> real) option"

record prediction_entry =
  pe_cluster_id :: string
  pe_prediction :: string
  pe_confidence :: real
  pe_features :: "real list"

record alert =
  alert_id :: nat
  alert_intrusion_type :: string
  alert_confidence :: real
  alert_cluster_id :: string
  alert_location :: "real \<times> real"
  alert_severity :: string
  alert_affected_nodes :: "real option"
  alert_detection_range :: real

record ai_gateway =
  intrusion_alerts :: "alert list"
  prediction_history :: "prediction_entry list"

text \<open>\<open>d.get(k, default)\<close> on a dictionary.\<close>

definition dict_get :: "('k \<rightharpoonup> 'v) \<Rightarrow> 'k \<Rightarrow> 'v \<Rightarrow> 'v" where
  "dict_get d k dflt = (case d k of None \<Rightarrow> dflt | Some v \<Rightarrow> v)"

text \<open>\<open>np.max\<close> of a sequence; it raises on an empty one.\<close>

fun np_max :: "real list \<Rightarrow> py_exception + real" where
  "np_max [] = Inl ValueError"
| "np_max (x # xs) = Inr (fold max xs x)"

text \<open>The feature vector assembled inside \<open>analyze_intrusion\<close>.\<close>

definition features_of :: "cluster_data \<Rightarrow> (string \<rightharpoonup> real) \<Rightarrow> real list" where
  "features_of cd summary =
     [dict_get summary ''total_motion'' 0,
      dict_get summary ''avg_vibration'' 0,
      dict_get summary ''max_temperature'' 25,
      dict_get summary ''acoustic_events'' 0 / real (max 1 (total_nodes cd))]"

text \<open>
  The body of the \<open>try\<close> block of \<open>analyze_intrusion\<close>: the result and the updated
  gateway, or the exception that left the block.
\<close>

definition analyze_try ::
  "classifier \<Rightarrow> ai_gateway \<Rightarrow> cluster_data option
     \<Rightarrow> py_exception + ((string \<times> real) \<times> ai_gateway)" where
  "analyze_try clf gw cdo =
     (case cdo of
        None \<Rightarrow> Inr ((''normal'', 0), gw)
      | Some cd \<Rightarrow>
         (case sensor_summary cd of
            None \<Rightarrow> Inr ((''normal'', 0), gw)
          | Some summary \<Rightarrow>
             (let features = features_of cd summary in
              case predict clf features of
                Inl e \<Rightarrow> Inl e
              | Inr prediction \<Rightarrow>
                 (case predict_proba clf features of
                    Inl e \<Rightarrow> Inl e
                  | Inr probabilities \<Rightarrow>
                     (case np_max probabilities of
                        Inl e \<Rightarrow> Inl e
                      | Inr confidence \<Rightarrow>
                         Inr ((prediction, confidence),
                              gw\<lparr>prediction_history := prediction_history gw @
                                   [\<lparr>pe_cluster_id = cluster_id cd,
                                     pe_prediction = prediction,
                                     pe_confidence = confidence,
                                     pe_features = features\<rparr>]\<rparr>))))))"

text \<open>\<open>analyze_intrusion\<close>: the \<open>except Exception\<close> clause turns every exception into
  the degraded result and leaves the gateway as it was.\<close>

definition analyze_intrusion ::
  "classifier \<Rightarrow> ai_gateway \<Rightarrow> cluster_data option \<Rightarrow> (string \<times> real) \<times> ai_gateway" where
  "analyze_intrusion clf gw cdo =
     (case analyze_try clf gw cdo of
        Inl e \<Rightarrow> ((''normal'', 0), gw)
      | Inr r \<Rightarrow> r)"

definition calculate_severity :: "string \<Rightarrow> real \<Rightarrow> string" where
  "calculate_severity intrusion_type confidence =
     (if confidence < 0.8 then ''LOW''
      else if intrusion_type = ''human'' \<and> confidence \<ge> 0.95 then ''CRITICAL''
      else if intrusion_type = ''vehicle'' \<and> confidence \<ge> 0.90 then ''HIGH''
      else ''MEDIUM'')"

text \<open>
  \<open>generate_alert\<close>, called only with a dictionary that carries a summary. The alert is
  appended to the gateway's log; delivery to the notification system is outside the
  engine and leaves no trace in the state modelled here.
\<close>

definition generate_alert ::
  "config \<Rightarrow> ai_gateway \<Rightarrow> string \<Rightarrow> real \<Rightarrow> cluster_data \<Rightarrow> alert \<times> ai_gateway" where
  "generate_alert cfg gw intrusion_type confidence cd =
     (let a = \<lparr> alert_id = length (intrusion_alerts gw) + 1,
                 alert_intrusion_type = intrusion_type,
                 alert_confidence = confidence,
                 alert_cluster_id = cluster_id cd,
                 alert_location = cluster_position cd,
                 alert_severity = calculate_severity intrusion_type confidence,
                 alert_affected_nodes =
                   (case sensor_summary cd of None \<Rightarrow> None
                    | Some summary \<Rightarrow> summary ''intrusion_nodes''),
                 alert_detection_range = sensor_range cfg \<rparr>
      in (a, gw\<lparr>intrusion_alerts := intrusion_alerts gw @ [a]\<rparr>))"

section \<open>Sensor nodes and cluster heads (models.py)\<close>

record readings =
  pir :: int
  vibration :: real
  thermal :: real
  acoustic :: real
  signal_strength :: real
  intrusion_detected :: bool

text \<open>
  A \<open>SensorNode\<close>. \<open>camera_module\<close> is the status of the node's \<open>CameraModule\<close>
  object, \<open>None\<close> when the node carries no camera; of the reading histories only the
  thermal one is read back by the engine.
\<close>

record sensor_node =
  node_id :: string
  node_x :: real
  node_y :: real
  has_camera :: bool
  is_active :: bool
  battery :: real
  cluster_head_id :: "string option"
  sensor_readings :: readings
  camera_module :: "string option"
  camera_status :: string
  thermal_history :: "real list"

text \<open>\<open>SensorNode.__init__\<close>; the two \<open>random.uniform\<close> results are arguments.\<close>

definition SensorNode :: "string \<Rightarrow> real \<Rightarrow> real \<Rightarrow> bool \<Rightarrow> real \<Rightarrow> real \<Rightarrow> sensor_node" where
  "SensorNode nid x y cam battery_draw signal_draw =
     \<lparr> node_id = nid, node_x = x, node_y = y, has_camera = cam, is_active = True,
       battery = battery_draw, cluster_head_id = None,
       sensor_readings = \<lparr> pir = 0, vibration = 0, thermal = 25, acoustic = 0,
                           signal_strength = signal_draw, intrusion_detected = False \<rparr>,
       camera_module = (if cam then Some ''IDLE'' else None),
       camera_status = ''IDLE'', thermal_history = [] \<rparr>"

text \<open>
  \<open>get_real_time_sensor_data\<close> reports \<open>max_temp_since_last_check\<close> from the history
  as it stands and then appends the current thermal reading, dropping the oldest entry
  beyond fifty.
\<close>

definition max_temp_since_last_check :: "sensor_node \<Rightarrow> real" where
  "max_temp_since_last_check node =
     (case thermal_history node of [] \<Rightarrow> 25 | t # ts \<Rightarrow> fold max ts t)"

definition update_sensor_history :: "sensor_node \<Rightarrow> sensor_node" where
  "update_sensor_history node =
     (let h = thermal_history node @ [thermal (sensor_readings node)]
      in node\<lparr>thermal_history := (if length h > 50 then tl h else h)\<rparr>)"

text \<open>\<open>cluster_members\<close> holds references to nodes: their indices in the simulator's
  node list.\<close>

record cluster_head =
  ch_node_id :: string
  ch_x :: real
  ch_y :: real
  ch_is_active :: bool
  ch_battery :: real
  cluster_members :: "nat list"
  ch_prediction_history :: "(string \<times> real) list"
  data_buffer :: "cluster_data list"
  ch_communication_range :: real

definition ClusterHead :: "config \<Rightarrow> string \<Rightarrow> real \<Rightarrow> real \<Rightarrow> cluster_head" where
  "ClusterHead cfg nid x y =
     \<lparr> ch_node_id = nid, ch_x = x, ch_y = y, ch_is_active = True, ch_battery = 100,
       cluster_members = [], ch_prediction_history = [], data_buffer = [],
       ch_communication_range = communication_range cfg \<rparr>"

definition add_cluster_member :: "cluster_head \<Rightarrow> nat \<Rightarrow> sensor_node \<Rightarrow> cluster_head \<times> sensor_node" where
  "add_cluster_member ch i node =
     (if i \<notin> set (cluster_members ch)
      then (ch\<lparr>cluster_members := cluster_members ch @ [i]\<rparr>,
            node\<lparr>cluster_head_id := Some (ch_node_id ch)\<rparr>)
      else (ch, node))"

definition is_in_range :: "cluster_head \<Rightarrow> sensor_node \<Rightarrow> bool" where
  "is_in_range ch node \<longleftrightarrow>
     sqrt ((ch_x ch - node_x node)\<^sup>2 + (ch_y ch - node_y node)\<^sup>2) \<le> ch_communication_range ch"

text \<open>The test that selects \<open>active_members\<close> in \<open>collect_cluster_data\<close>.\<close>

definition is_active_member :: "cluster_head \<Rightarrow> sensor_node \<Rightarrow> bool" where
  "is_active_member ch node \<longleftrightarrow>
     is_active node \<and> cluster_head_id node = Some (ch_node_id ch) \<and> is_in_range ch node"

fun aggregate_sensor_data :: "sensor_node list \<Rightarrow> (string \<rightharpoonup> real)" where
  "aggregate_sensor_data [] = Map.empty"
| "aggregate_sensor_data (m # ms) =
     (let members = m # ms;
          pir_values = map (\<lambda>n. pir (sensor_readings n)) members;
          vibration_values = map (\<lambda>n. vibration (sensor_readings n)) members;
          thermal_values = map (\<lambda>n. thermal (sensor_readings n)) members;
          acoustic_values = map (\<lambda>n. acoustic (sensor_readings n)) members
      in [''total_motion'' \<mapsto> real_of_int (sum_list pir_values),
          ''avg_vibration'' \<mapsto> sum_list vibration_values / real (length members),
          ''max_vibration'' \<mapsto> fold max (tl vibration_values) (hd vibration_values),
          ''avg_temperature'' \<mapsto> sum_list thermal_values / real (length members),
          ''max_temperature'' \<mapsto>
             fold max (map max_temp_since_last_check ms) (max_temp_since_last_check m),
          ''acoustic_events'' \<mapsto> real (length (filter (\<lambda>v. v > 0.5) acoustic_values)),
          ''intrusion_nodes'' \<mapsto>
             real (length (filter (\<lambda>n. intrusion_detected (sensor_readings n)) members)),
          ''camera_nodes'' \<mapsto>
             real (length (filter (\<lambda>n. has_camera n \<and> camera_status n = ''RECORDING'')
                             members))])"

text \<open>
  \<open>collect_cluster_data\<close>: the snapshot (or \<open>None\<close>), the cluster head with the snapshot
  buffered, and the nodes, whose histories the aggregation has advanced.
\<close>

definition collect_cluster_data ::
  "cluster_head \<Rightarrow> sensor_node list \<Rightarrow> cluster_data option \<times> cluster_head \<times> sensor_node list" where
  "collect_cluster_data ch all_sensor_nodes =
     (if \<not> ch_is_active ch then (None, ch, all_sensor_nodes)
      else
        (let members = filter (is_active_member ch) all_sensor_nodes
         in if members = [] then (None, ch, all_sensor_nodes)
            else
              (let cd = \<lparr> cluster_id = ch_node_id ch,
                          cluster_position = (ch_x ch, ch_y ch),
                          total_nodes = length members,
                          active_members = map node_id members,
                          sensor_summary = Some (aggregate_sensor_data members) \<rparr>
               in (Some cd,
                   ch\<lparr>data_buffer := data_buffer ch @ [cd]\<rparr>,
                   map (\<lambda>n. if is_active_member ch n then update_sensor_history n else n)
                       all_sensor_nodes))))"

definition update_prediction_history :: "string \<Rightarrow> real \<Rightarrow> cluster_head \<Rightarrow> cluster_head" where
  "update_prediction_history prediction confidence ch =
     (let h = ch_prediction_history ch @ [(prediction, confidence)]
      in ch\<lparr>ch_prediction_history := (if length h > 20 then tl h else h)\<rparr>)"

definition simulate_energy_consumption :: "cluster_head \<Rightarrow> cluster_head" where
  "simulate_energy_consumption ch =
     (let consumption = 0.05 + (if data_buffer ch \<noteq> []
                                then 0.02 * real (length (data_buffer ch)) else 0);
          b = max 0 (ch_battery ch - consumption)
      in ch\<lparr>ch_battery := b, ch_is_active := (if b < 5 then False else ch_is_active ch)\<rparr>)"

section \<open>The simulator (main.py)\<close>

text \<open>
  An entry of \<open>current_intrusions\<close>. The list holds references to dictionaries that the
  matcher and the activation pass mutate in place, so the dictionaries live in a store
  (\<open>intrusion_objects\<close>, one slot per dictionary ever created) and the list holds their
  addresses.
\<close>

record intrusion =
  itype :: string
  position :: real
  start_time :: real
  duration :: int
  detected :: bool
  affected_nodes :: nat

record metrics =
  total_intrusions :: nat
  detected_intrusions :: nat
  false_positives :: nat
  response_times :: "real list"

record simulator =
  sim_config :: config
  sensor_nodes :: "sensor_node list"
  cluster_heads :: "cluster_head list"
  gateway :: ai_gateway
  simulation_time :: real
  intrusion_objects :: "intrusion list"
  current_intrusions :: "nat list"
  performance_metrics :: metrics
  cycle_count :: nat

subsection \<open>Deployment\<close>

text \<open>Decimal formatting for \<open>f"SN{i+1:02d}"\<close> and \<open>f"CH{i+1:01d}"\<close>.\<close>

definition digit :: "nat \<Rightarrow> char" where
  "digit k = ''0123456789'' ! k"

fun decimal :: "nat \<Rightarrow> string" where
  "decimal n = (if n < 10 then [digit n] else decimal (n div 10) @ [digit (n mod 10)])"

declare decimal.simps [simp del]

definition zero_pad :: "nat \<Rightarrow> string \<Rightarrow> string" where
  "zero_pad w s = replicate (w - length s) (CHR ''0'') @ s"

text \<open>Python's \<open>int()\<close> on a float truncates towards zero.\<close>

definition py_int :: "real \<Rightarrow> int" where
  "py_int r = (if 0 \<le> r then \<lfloor>r\<rfloor> else \<lceil>r\<rceil>)"

definition perfect_camera_positions :: "real list" where
  "perfect_camera_positions = [100, 300, 500, 700, 150, 350, 650, 850]"

text \<open>
  The inner loop over the anchor positions for a node at \<open>x\<close>. \<open>camera_assigned\<close> is a
  Python set of anchor positions: a list without repetitions here, its \<open>len\<close> the length.
\<close>

fun camera_scan :: "real \<Rightarrow> real list \<Rightarrow> real list \<Rightarrow> int \<Rightarrow> bool \<times> real list" where
  "camera_scan x [] camera_assigned camera_count = (False, camera_assigned)"
| "camera_scan x (cam_pos # rest) camera_assigned camera_count =
     (if \<bar>x - cam_pos\<bar> < 25 \<and> int (length camera_assigned) < camera_count
      then (True, List.insert cam_pos camera_assigned)
      else camera_scan x rest camera_assigned camera_count)"

text \<open>The results of the \<open>random.uniform\<close> calls of deployment, per node index.\<close>

record deploy_draws =
  d_y :: "nat \<Rightarrow> real"
  d_battery :: "nat \<Rightarrow> real"
  d_signal :: "nat \<Rightarrow> real"

fun deploy_nodes :: "config \<Rightarrow> deploy_draws \<Rightarrow> int \<Rightarrow> nat list \<Rightarrow> real list \<Rightarrow> sensor_node list" where
  "deploy_nodes cfg dd camera_count [] camera_assigned = []"
| "deploy_nodes cfg dd camera_count (i # is) camera_assigned =
     (let x = (real i / real (n_sensor_nodes cfg)) * border_length cfg;
          scan = camera_scan x perfect_camera_positions camera_assigned camera_count;
          node = SensorNode (''SN'' @ zero_pad 2 (decimal (i + 1))) x (d_y dd i) (fst scan)
                   (d_battery dd i) (d_signal dd i)
      in node # deploy_nodes cfg dd camera_count is (snd scan))"

definition deploy_cluster_heads :: "config \<Rightarrow> cluster_head list" where
  "deploy_cluster_heads cfg =
     map (\<lambda>i. ClusterHead cfg (''CH'' @ zero_pad 1 (decimal (i + 1)))
                (border_length cfg * real (i + 1) / real (n_cluster_heads cfg + 1))
                (border_width cfg / 2))
         [0..<n_cluster_heads cfg]"

text \<open>
  The inner loop of \<open>_assign_clusters\<close> for one node: \<open>min_distance\<close> is \<open>None\<close> while
  it is still \<open>float('inf')\<close>, \<open>nearest_ch\<close> the index of the head found so far.
\<close>

fun find_nearest ::
  "real \<Rightarrow> sensor_node \<Rightarrow> cluster_head list \<Rightarrow> nat \<Rightarrow> real option \<Rightarrow> nat option \<Rightarrow> nat option" where
  "find_nearest rng node [] j min_distance nearest_ch = nearest_ch"
| "find_nearest rng node (ch # chs) j min_distance nearest_ch =
     (let distance = sqrt ((node_x node - ch_x ch)\<^sup>2 + (node_y node - ch_y ch)\<^sup>2)
      in if (case min_distance of None \<Rightarrow> True | Some m \<Rightarrow> distance < m) \<and> distance \<le> rng
         then find_nearest rng node chs (Suc j) (Some distance) (Some j)
         else find_nearest rng node chs (Suc j) min_distance nearest_ch)"

fun assign_loop ::
  "real \<Rightarrow> nat \<Rightarrow> sensor_node list \<Rightarrow> cluster_head list \<Rightarrow> sensor_node list \<times> cluster_head list" where
  "assign_loop rng i [] chs = ([], chs)"
| "assign_loop rng i (node # nodes) chs =
     (case find_nearest rng node chs 0 None None of
        None \<Rightarrow>
          (let r = assign_loop rng (Suc i) nodes chs in (node # fst r, snd r))
      | Some j \<Rightarrow>
          (let m = add_cluster_member (chs ! j) i node;
               r = assign_loop rng (Suc i) nodes (chs[j := fst m])
           in (snd m # fst r, snd r)))"

definition assign_clusters ::
  "config \<Rightarrow> sensor_node list \<Rightarrow> cluster_head list \<Rightarrow> sensor_node list \<times> cluster_head list" where
  "assign_clusters cfg nodes chs = assign_loop (communication_range cfg) 0 nodes chs"

definition deploy_perfect_network :: "config \<Rightarrow> deploy_draws \<Rightarrow> simulator" where
  "deploy_perfect_network cfg dd =
     (let total_nodes = n_sensor_nodes cfg;
          camera_count = py_int (real total_nodes * camera_node_percentage cfg);
          nodes = deploy_nodes cfg dd camera_count [0..<total_nodes] [];
          chs = deploy_cluster_heads cfg;
          assigned = assign_clusters cfg nodes chs
      in \<lparr> sim_config = cfg, sensor_nodes = fst assigned, cluster_heads = snd assigned,
           gateway = \<lparr> intrusion_alerts = [], prediction_history = [] \<rparr>,
           simulation_time = 0, intrusion_objects = [], current_intrusions = [],
           performance_metrics = \<lparr> total_intrusions = 0, detected_intrusions = 0,
                                   false_positives = 0, response_times = [] \<rparr>,
           cycle_count = 0 \<rparr>)"

subsection \<open>The phases of a cycle\<close>

text \<open>
  What one cycle draws from the random number generator and what the camera modules,
  which are outside the engine, do in it: per node index the fault draw and the faulted
  sensor, the status the camera module is left in by the fault pass and by data
  collection, and the recharge draw; for the cycle the spawn draw and the type, position
  and duration drawn for a spawned intrusion.
\<close>

record cycle_draws =
  d_fault :: "nat \<Rightarrow> real"
  d_fault_sensor :: "nat \<Rightarrow> nat"
  d_camera_fault :: "nat \<Rightarrow> string"
  d_spawn :: real
  d_type :: nat
  d_position :: real
  d_duration :: int
  d_camera_collect :: "nat \<Rightarrow> string"
  d_recharge :: "nat \<Rightarrow> real"

definition fault_sensors :: "string list" where
  "fault_sensors = [''pir'', ''vibration'', ''thermal'', ''acoustic'']"

definition set_reading_zero :: "string \<Rightarrow> readings \<Rightarrow> readings" where
  "set_reading_zero k r =
     (if k = ''pir'' then r\<lparr>pir := 0\<rparr>
      else if k = ''vibration'' then r\<lparr>vibration := 0\<rparr>
      else if k = ''thermal'' then r\<lparr>thermal := 0\<rparr>
      else if k = ''acoustic'' then r\<lparr>acoustic := 0\<rparr>
      else r)"

text \<open>\<open>simulate_sensor_fault("random")\<close>.\<close>

definition simulate_sensor_fault :: "real \<Rightarrow> nat \<Rightarrow> sensor_node \<Rightarrow> sensor_node" where
  "simulate_sensor_fault u k node =
     (if u < 0.05
      then node\<lparr>sensor_readings :=
                  set_reading_zero (fault_sensors ! (k mod 4)) (sensor_readings node)\<rparr>
      else node)"

text \<open>The fault pass at the head of \<open>run_realtime_cycle\<close>, for the node at index \<open>i\<close>.\<close>

definition fault_pass_node :: "cycle_draws \<Rightarrow> nat \<Rightarrow> sensor_node \<Rightarrow> sensor_node" where
  "fault_pass_node d i node =
     (if is_active node
      then (let n1 = simulate_sensor_fault (d_fault d i) (d_fault_sensor d i) node
            in if has_camera n1 \<and> camera_module n1 \<noteq> None
               then n1\<lparr>camera_module := Some (d_camera_fault d i)\<rparr>
               else n1)
      else node)"

definition indexed :: "'a list \<Rightarrow> (nat \<times> 'a) list" where
  "indexed xs = zip [0..<length xs] xs"

definition fault_pass :: "cycle_draws \<Rightarrow> simulator \<Rightarrow> simulator" where
  "fault_pass d s =
     s\<lparr>sensor_nodes := map (\<lambda>(i, n). fault_pass_node d i n) (indexed (sensor_nodes s))\<rparr>"

text \<open>\<open>_simulate_intrusions\<close>: expiry, then the spawn.\<close>

definition not_expired :: "real \<Rightarrow> intrusion \<Rightarrow> bool" where
  "not_expired current_time intrusion \<longleftrightarrow>
     current_time - start_time intrusion < real_of_int (duration intrusion)"

definition simulate_intrusions :: "cycle_draws \<Rightarrow> simulator \<Rightarrow> simulator" where
  "simulate_intrusions d s =
     (let current_time = simulation_time s;
          kept = filter (\<lambda>a. not_expired current_time (intrusion_objects s ! a))
                        (current_intrusions s)
      in if d_spawn d < spawn_probability (sim_config s)
         then
           (let intrusion = \<lparr> itype = intrusion_type_keys ! (d_type d mod 3),
                                position = d_position d,
                                start_time = simulation_time s,
                                duration = d_duration d,
                                detected = False,
                                affected_nodes = 0 \<rparr>
            in s\<lparr>intrusion_objects := intrusion_objects s @ [intrusion],
                 current_intrusions := kept @ [length (intrusion_objects s)],
                 performance_metrics := (performance_metrics s)
                    \<lparr>total_intrusions := total_intrusions (performance_metrics s) + 1\<rparr>\<rparr>)
         else s\<lparr>current_intrusions := kept\<rparr>)"

text \<open>\<open>_activate_nearby_sensors\<close>: the forced reading pattern of a node in range.\<close>

definition activation_pattern :: "string \<Rightarrow> readings \<Rightarrow> readings" where
  "activation_pattern intrusion_type r =
     (let r1 = r\<lparr>pir := 1\<rparr>;
          r2 = (if intrusion_type = ''human''
                then r1\<lparr>thermal := 36, vibration := 0.8, acoustic := 0.9\<rparr>
                else if intrusion_type = ''vehicle''
                then r1\<lparr>vibration := 1, acoustic := 1, thermal := 55\<rparr>
                else if intrusion_type = ''animal''
                then r1\<lparr>thermal := 32, vibration := 0.6, acoustic := 0.7\<rparr>
                else r1)
      in r2\<lparr>intrusion_detected := True\<rparr>)"

definition in_activation_range :: "config \<Rightarrow> real \<Rightarrow> sensor_node \<Rightarrow> bool" where
  "in_activation_range cfg position_x node \<longleftrightarrow>
     \<bar>node_x node - position_x\<bar> \<le> sensor_range cfg * 1.05"

definition activate_node :: "config \<Rightarrow> real \<Rightarrow> string \<Rightarrow> sensor_node \<Rightarrow> sensor_node" where
  "activate_node cfg position_x intrusion_type node =
     (if in_activation_range cfg position_x node \<and> is_active node
      then node\<lparr>sensor_readings := activation_pattern intrusion_type (sensor_readings node)\<rparr>
      else node)"

text \<open>The closing loop of \<open>_activate_nearby_sensors\<close>: the first intrusion of that type
  within 10 of the position.\<close>

fun find_affected :: "intrusion list \<Rightarrow> real \<Rightarrow> string \<Rightarrow> nat list \<Rightarrow> nat option" where
  "find_affected objs position_x intrusion_type [] = None"
| "find_affected objs position_x intrusion_type (a # as) =
     (if \<bar>position (objs ! a) - position_x\<bar> < 10 \<and> itype (objs ! a) = intrusion_type
      then Some a
      else find_affected objs position_x intrusion_type as)"

definition activate_nearby_sensors :: "real \<Rightarrow> string \<Rightarrow> simulator \<Rightarrow> simulator" where
  "activate_nearby_sensors position_x intrusion_type s =
     (let cfg = sim_config s;
          affected_count = length (filter (\<lambda>n. in_activation_range cfg position_x n \<and> is_active n)
                                          (sensor_nodes s));
          nodes = map (activate_node cfg position_x intrusion_type) (sensor_nodes s);
          objs = intrusion_objects s
      in s\<lparr>sensor_nodes := nodes,
           intrusion_objects :=
             (case find_affected objs position_x intrusion_type (current_intrusions s) of
                None \<Rightarrow> objs
              | Some a \<Rightarrow> objs[a := (objs ! a)\<lparr>affected_nodes := affected_count\<rparr>])\<rparr>)"

text \<open>\<open>collect_real_time_data\<close>: the flag reset, the activation for every current
  intrusion in list order, and the per-node collection.\<close>

definition reset_flags :: "sensor_node list \<Rightarrow> sensor_node list" where
  "reset_flags nodes =
     map (\<lambda>n. n\<lparr>sensor_readings := (sensor_readings n)\<lparr>intrusion_detected := False\<rparr>\<rparr>) nodes"

definition activate_all :: "simulator \<Rightarrow> simulator" where
  "activate_all s =
     fold (\<lambda>a s'. activate_nearby_sensors (position (intrusion_objects s' ! a))
                                           (itype (intrusion_objects s' ! a)) s')
          (current_intrusions s) s"

definition collect_node :: "cycle_draws \<Rightarrow> nat \<Rightarrow> sensor_node \<Rightarrow> sensor_node" where
  "collect_node d i node =
     (if is_active node
      then (let n1 = update_sensor_history node
            in if has_camera n1 \<and> camera_module n1 \<noteq> None
               then n1\<lparr>camera_status := the (camera_module n1),
                       camera_module := Some (d_camera_collect d i)\<rparr>
               else n1)
      else node)"

definition collect_real_time_data :: "cycle_draws \<Rightarrow> simulator \<Rightarrow> simulator" where
  "collect_real_time_data d s =
     (let s1 = s\<lparr>sensor_nodes := reset_flags (sensor_nodes s)\<rparr>;
          s2 = activate_all s1
      in s2\<lparr>sensor_nodes := map (\<lambda>(i, n). collect_node d i n) (indexed (sensor_nodes s2))\<rparr>)"

text \<open>The matcher inside \<open>_process_cluster_data\<close>: the loop over the current intrusions
  that follows the creation of an alert.\<close>

fun find_undetected :: "intrusion list \<Rightarrow> real \<Rightarrow> nat list \<Rightarrow> nat option" where
  "find_undetected objs cluster_x [] = None"
| "find_undetected objs cluster_x (a # as) =
     (if \<not> detected (objs ! a) \<and> \<bar>position (objs ! a) - cluster_x\<bar> < 100
      then Some a
      else find_undetected objs cluster_x as)"

definition mark_detected :: "real \<Rightarrow> simulator \<Rightarrow> simulator" where
  "mark_detected cluster_x s =
     (let objs = intrusion_objects s; pm = performance_metrics s
      in case find_undetected objs cluster_x (current_intrusions s) of
           None \<Rightarrow> s
         | Some a \<Rightarrow>
             s\<lparr>intrusion_objects := objs[a := (objs ! a)\<lparr>detected := True\<rparr>],
               performance_metrics := pm
                 \<lparr>detected_intrusions := detected_intrusions pm + 1,
                  response_times := response_times pm @
                                      [simulation_time s - start_time (objs ! a)]\<rparr>\<rparr>)"

text \<open>The body of the loop of \<open>_process_cluster_data\<close> for the cluster head at index
  \<open>j\<close>; the second component is the list \<open>alerts\<close>.\<close>

fun process_cluster :: "classifier \<Rightarrow> nat \<Rightarrow> simulator \<times> alert list \<Rightarrow> simulator \<times> alert list" where
  "process_cluster clf j (s, alerts) =
     (let c = collect_cluster_data (cluster_heads s ! j) (sensor_nodes s);
          s1 = s\<lparr>sensor_nodes := snd (snd c),
                 cluster_heads := (cluster_heads s)[j := fst (snd c)]\<rparr>
      in case fst c of
           None \<Rightarrow> (s1, alerts)
         | Some cd \<Rightarrow>
             if total_nodes cd > 0
             then
               (let r = analyze_intrusion clf (gateway s1) (Some cd);
                    prediction = fst (fst r);
                    confidence = snd (fst r);
                    s2 = s1\<lparr>gateway := snd r,
                            cluster_heads := (cluster_heads s1)
                              [j := update_prediction_history prediction confidence
                                      (cluster_heads s1 ! j)]\<rparr>
                in if prediction \<noteq> ''normal''
                      \<and> confidence > confidence_threshold (sim_config s2)
                   then
                     (let g = generate_alert (sim_config s2) (gateway s2) prediction confidence cd;
                          s3 = s2\<lparr>gateway := snd g\<rparr>
                      in (mark_detected (fst (cluster_position cd)) s3, alerts @ [fst g]))
                   else (s2, alerts))
             else (s1, alerts))"

definition process_cluster_data :: "classifier \<Rightarrow> simulator \<Rightarrow> simulator \<times> alert list" where
  "process_cluster_data clf s =
     fold (process_cluster clf) [0..<length (cluster_heads s)] (s, [])"

text \<open>\<open>_update_energy_consumption\<close>.\<close>

definition any_reading :: "readings \<Rightarrow> bool" where
  "any_reading r \<longleftrightarrow>
     pir r \<noteq> 0 \<or> vibration r \<noteq> 0 \<or> thermal r \<noteq> 0 \<or> acoustic r \<noteq> 0
       \<or> signal_strength r \<noteq> 0 \<or> intrusion_detected r"

definition node_consumption :: "sensor_node \<Rightarrow> real" where
  "node_consumption node =
     0.015 + (if any_reading (sensor_readings node) then 0.008 else 0)
           + (if has_camera node \<and> camera_module node = Some ''RECORDING'' then 0.025 else 0)"

definition update_node_energy :: "config \<Rightarrow> real \<Rightarrow> sensor_node \<Rightarrow> sensor_node" where
  "update_node_energy cfg u node =
     (if is_active node
      then (let b = max 0 (battery node - node_consumption node)
            in if u < solar_recharge_prob cfg
               then node\<lparr>battery := min 100 (b + solar_recharge_amount cfg)\<rparr>
               else node\<lparr>battery := b\<rparr>)
      else node)"

definition update_energy_consumption :: "cycle_draws \<Rightarrow> simulator \<Rightarrow> simulator" where
  "update_energy_consumption d s =
     s\<lparr>sensor_nodes := map (\<lambda>(i, n). update_node_energy (sim_config s) (d_recharge d i) n)
                            (indexed (sensor_nodes s))\<rparr>"

text \<open>\<open>run_realtime_cycle\<close> with the configured cycle duration, and
  \<open>run_perfect_simulation\<close> over one record of draws per cycle.\<close>

definition run_realtime_cycle :: "classifier \<Rightarrow> cycle_draws \<Rightarrow> simulator \<Rightarrow> simulator \<times> alert list" where
  "run_realtime_cycle clf d s =
     (let s0 = s\<lparr>cycle_count := cycle_count s + 1\<rparr>;
          s1 = fault_pass d s0;
          s2 = simulate_intrusions d s1;
          s3 = collect_real_time_data d s2;
          p = process_cluster_data clf s3;
          s4 = update_energy_consumption d (fst p)
      in (s4\<lparr>simulation_time := simulation_time s4 + cycle_duration (sim_config s4)\<rparr>, snd p))"

definition run_perfect_simulation :: "classifier \<Rightarrow> cycle_draws list \<Rightarrow> simulator \<Rightarrow> simulator" where
  "run_perfect_simulation clf ds s = fold (\<lambda>d s'. fst (run_realtime_cycle clf d s')) ds s"

section \<open>Auxiliary notions and concrete scenarios\<close>

text \<open>What \<open>_process_cluster_data\<close> guarantees of an alert it creates under threshold
  \<open>thr\<close>.\<close>

definition alert_ok :: "real \<Rightarrow> alert \<Rightarrow> bool" where
  "alert_ok thr a \<longleftrightarrow>
     thr < alert_confidence a \<and> alert_intrusion_type a \<noteq> ''normal''
     \<and> alert_severity a = calculate_severity (alert_intrusion_type a) (alert_confidence a)"

text \<open>A classifier that answers every snapshot with the same label and confidence, and one
  whose \<open>predict\<close> always raises.\<close>

definition constant_classifier :: "string \<Rightarrow> real \<Rightarrow> classifier" where
  "constant_classifier label c =
     \<lparr> predict = (\<lambda>_. Inr label), predict_proba = (\<lambda>_. Inr [c, 1 - c]) \<rparr>"

definition failing_classifier :: classifier where
  "failing_classifier = \<lparr> predict = (\<lambda>_. Inl ModelError), predict_proba = (\<lambda>_. Inr [1]) \<rparr>"

text \<open>
  A one-cluster network: node \<open>SN01\<close> at (500, 125), assigned to cluster head \<open>CH1\<close> at
  the same place, at simulation time 5, with the given threshold and intrusion
  dictionaries, all of them current.
\<close>

definition demo_node :: sensor_node where
  "demo_node = (SensorNode ''SN01'' 500 125 False 90 0.75)\<lparr>cluster_head_id := Some ''CH1''\<rparr>"

definition demo_head :: cluster_head where
  "demo_head = (ClusterHead SIMULATION_CONFIG ''CH1'' 500 125)\<lparr>cluster_members := [0]\<rparr>"

definition demo_intrusion :: "string \<Rightarrow> intrusion" where
  "demo_intrusion ty = \<lparr> itype = ty, position = 480, start_time = 3, duration = 40,
                          detected = False, affected_nodes = 0 \<rparr>"

definition demo_sim :: "real \<Rightarrow> intrusion list \<Rightarrow> simulator" where
  "demo_sim thr objs =
     \<lparr> sim_config = SIMULATION_CONFIG\<lparr>confidence_threshold := thr\<rparr>,
       sensor_nodes = [demo_node],
       cluster_heads = [demo_head],
       gateway = \<lparr> intrusion_alerts = [], prediction_history = [] \<rparr>,
       simulation_time = 5, intrusion_objects = objs,
       current_intrusions = [0..<length objs],
       performance_metrics = \<lparr> total_intrusions = length objs, detected_intrusions = 0,
                               false_positives = 0, response_times = [] \<rparr>,
       cycle_count = 5 \<rparr>"

text \<open>The snapshot that \<open>CH1\<close> produces of the one-cluster network.\<close>

definition demo_snapshot :: cluster_data where
  "demo_snapshot =
     \<lparr> cluster_id = ''CH1'', cluster_position = (500, 125), total_nodes = 1,
       active_members = [''SN01''],
       sensor_summary = Some (aggregate_sensor_data [demo_node]) \<rparr>"

text \<open>Every current intrusion refers to an existing dictionary.\<close>

definition intrusions_wf :: "simulator \<Rightarrow> bool" where
  "intrusions_wf s \<longleftrightarrow>
     (\<forall>a \<in> set (current_intrusions s). a < length (intrusion_objects s))"

definition detected_count :: "intrusion list \<Rightarrow> nat" where
  "detected_count objs = length (filter detected objs)"

text \<open>The condition under which the matcher takes an intrusion.\<close>

definition matchable :: "intrusion list \<Rightarrow> real \<Rightarrow> nat \<Rightarrow> bool" where
  "matchable objs cluster_x a \<longleftrightarrow>
     \<not> detected (objs ! a) \<and> \<bar>position (objs ! a) - cluster_x\<bar> < 100"

text \<open>
  How the intrusion dictionaries of a later state \<open>s'\<close> relate to those of an earlier
  state \<open>s\<close>: none is lost, none changes its type, position, spawn time or duration,
  none loses its \<open>detected\<close> flag, and the \<open>detected_intrusions\<close> counter has grown by
  exactly the number of dictionaries whose flag went from false to true.
\<close>

definition intr_mono :: "simulator \<Rightarrow> simulator \<Rightarrow> bool" where
  "intr_mono s s' \<longleftrightarrow>
     length (intrusion_objects s) \<le> length (intrusion_objects s')
     \<and> (\<forall>a < length (intrusion_objects s).
           itype (intrusion_objects s' ! a) = itype (intrusion_objects s ! a)
           \<and> position (intrusion_objects s' ! a) = position (intrusion_objects s ! a)
           \<and> start_time (intrusion_objects s' ! a) = start_time (intrusion_objects s ! a)
           \<and> duration (intrusion_objects s' ! a) = duration (intrusion_objects s ! a)
           \<and> (detected (intrusion_objects s ! a) \<longrightarrow> detected (intrusion_objects s' ! a)))
     \<and> detected_intrusions (performance_metrics s') + detected_count (intrusion_objects s)
         = detected_intrusions (performance_metrics s) + detected_count (intrusion_objects s')"

text \<open>A cycle in which no sensor faults, nothing spawns and nothing recharges.\<close>

definition quiet_draws :: cycle_draws where
  "quiet_draws =
     \<lparr> d_fault = (\<lambda>_. 1), d_fault_sensor = (\<lambda>_. 0), d_camera_fault = (\<lambda>_. ''IDLE''),
       d_spawn = 1, d_type = 0, d_position = 0, d_duration = 30,
       d_camera_collect = (\<lambda>_. ''IDLE''), d_recharge = (\<lambda>_. 1) \<rparr>"

text \<open>
  A view \<open>g\<close> of a node that does not depend on the fields the phases other than the
  energy update write: the readings, the camera module and status, and the history.
\<close>

definition ignores_dynamic :: "(sensor_node \<Rightarrow> 'a) \<Rightarrow> bool" where
  "ignores_dynamic g \<longleftrightarrow>
     (\<forall>n r. g (n\<lparr>sensor_readings := r\<rparr>) = g n)
     \<and> (\<forall>n c. g (n\<lparr>camera_module := c\<rparr>) = g n)
     \<and> (\<forall>n c. g (n\<lparr>camera_status := c\<rparr>) = g n)
     \<and> (\<forall>n h. g (n\<lparr>thermal_history := h\<rparr>) = g n)"

definition batteries_ok :: "sensor_node list \<Rightarrow> bool" where
  "batteries_ok nodes \<longleftrightarrow> (\<forall>n \<in> set nodes. 0 \<le> battery n \<and> battery n \<le> 100)"

text \<open>The one-cluster network with the node's battery almost empty, and a cycle in which
  every node recharges.\<close>

definition low_battery_sim :: simulator where
  "low_battery_sim = (demo_sim 0.95 [])\<lparr>sensor_nodes := [demo_node\<lparr>battery := 0.01\<rparr>]\<rparr>"

definition sunny_draws :: cycle_draws where
  "sunny_draws = quiet_draws\<lparr>d_recharge := (\<lambda>_. 0)\<rparr>"

text \<open>One iteration of the activation loop of \<open>collect_real_time_data\<close>, and what it is
  for a node to report an intrusion.\<close>

definition activate_step :: "nat \<Rightarrow> simulator \<Rightarrow> simulator" where
  "activate_step a s =
     activate_nearby_sensors (position (intrusion_objects s ! a))
                             (itype (intrusion_objects s ! a)) s"

definition flagged :: "sensor_node \<Rightarrow> bool" where
  "flagged n \<longleftrightarrow> intrusion_detected (sensor_readings n) \<and> pir (sensor_readings n) = 1"

text \<open>A vehicle intrusion that expires when the simulation time reaches 43, in the
  one-cluster network at time 42.\<close>

definition late_sim :: simulator where
  "late_sim = (demo_sim 0.95 [demo_intrusion ''vehicle''])\<lparr>simulation_time := 42\<rparr>"

text \<open>What the properties below observe of a state: the current intrusions and, per node,
  the active flag and the readings.\<close>

definition observe :: "simulator \<Rightarrow> nat list \<times> bool list \<times> readings list" where
  "observe s = (current_intrusions s, map is_active (sensor_nodes s),
                map sensor_readings (sensor_nodes s))"

text \<open>The distance that \<open>_assign_clusters\<close> computes, the comparison with a minimum that
  may still be infinite, and what of a cluster head the assignment reads.\<close>

definition node_distance :: "sensor_node \<Rightarrow> cluster_head \<Rightarrow> real" where
  "node_distance node ch = sqrt ((node_x node - ch_x ch)\<^sup>2 + (node_y node - ch_y ch)\<^sup>2)"

definition below_min :: "real \<Rightarrow> real option \<Rightarrow> bool" where
  "below_min d min_distance = (case min_distance of None \<Rightarrow> True | Some m \<Rightarrow> d < m)"

definition head_place :: "cluster_head \<Rightarrow> string \<times> real \<times> real" where
  "head_place ch = (ch_node_id ch, ch_x ch, ch_y ch)"

text \<open>Every member index recorded so far is below \<open>i\<close>.\<close>

definition members_below :: "nat \<Rightarrow> cluster_head list \<Rightarrow> bool" where
  "members_below i chs \<longleftrightarrow> (\<forall>ch \<in> set chs. \<forall>m \<in> set (cluster_members ch). m < i)"

text \<open>
  Head \<open>j\<close> is the nearest head within range \<open>rng\<close> of the node, and the first such in
  list order.
\<close>

definition nearest_in_range :: "real \<Rightarrow> sensor_node \<Rightarrow> cluster_head list \<Rightarrow> nat \<Rightarrow> bool" where
  "nearest_in_range rng node chs j \<longleftrightarrow>
     j < length chs \<and> node_distance node (chs ! j) \<le> rng
     \<and> (\<forall>k < length chs. node_distance node (chs ! k) \<le> rng \<longrightarrow>
            node_distance node (chs ! j) \<le> node_distance node (chs ! k))
     \<and> (\<forall>k < j. node_distance node (chs ! k) \<le> rng \<longrightarrow>
            node_distance node (chs ! j) < node_distance node (chs ! k))"

text \<open>What the assignment loop returns: every node unchanged but for the id of the head
  that the search found for it among the heads as they were placed.\<close>

definition assigned :: "real \<Rightarrow> cluster_head list \<Rightarrow> sensor_node \<Rightarrow> sensor_node" where
  "assigned rng chs node =
     (case find_nearest rng node chs 0 None None of
        None \<Rightarrow> node
      | Some j \<Rightarrow> node\<lparr>cluster_head_id := Some (ch_node_id (chs ! j))\<rparr>)"

text \<open>A node as it is created at (500, 125), between the second and the third of the four
  cluster heads of the shipped configuration and equally far from both.\<close>

definition fresh_node :: sensor_node where
  "fresh_node = SensorNode ''SN17'' 500 125 True 90 0.75"

section \<open>Properties of the gateway and of alert creation\<close>

lemmas demo_defs = demo_sim_def demo_node_def demo_head_def demo_intrusion_def demo_snapshot_def
  SensorNode_def ClusterHead_def SIMULATION_CONFIG_def constant_classifier_def
  failing_classifier_def

lemmas engine_defs = process_cluster_data_def Let_def collect_cluster_data_def
  is_active_member_def is_in_range_def analyze_intrusion_def analyze_try_def generate_alert_def
  calculate_severity_def features_of_def dict_get_def mark_detected_def
  update_prediction_history_def

lemma mark_detected_config [simp]: "sim_config (mark_detected cx s) = sim_config s"
  by (simp add: mark_detected_def Let_def split: option.splits)

lemma mark_detected_heads [simp]: "cluster_heads (mark_detected cx s) = cluster_heads s"
  by (simp add: mark_detected_def Let_def split: option.splits)

lemma generate_alert_ok:
  "thr < c \<Longrightarrow> p \<noteq> ''normal'' \<Longrightarrow> alert_ok thr (fst (generate_alert cfg gw p c cd))"
  by (simp add: generate_alert_def alert_ok_def Let_def)

lemma process_cluster_config [simp]:
  "sim_config (fst (process_cluster clf j (s, alerts))) = sim_config s"
  by (simp add: Let_def split: option.splits)

lemma process_cluster_heads_length [simp]:
  "length (cluster_heads (fst (process_cluster clf j (s, alerts)))) = length (cluster_heads s)"
  by (simp add: Let_def split: option.splits)

lemma process_cluster_alerts:
  "snd (process_cluster clf j (s, alerts)) = alerts \<or>
   (\<exists>a. snd (process_cluster clf j (s, alerts)) = alerts @ [a]
        \<and> alert_ok (confidence_threshold (sim_config s)) a)"
  by (auto simp add: Let_def generate_alert_ok split: option.splits)

lemma fold_process_cluster_ok:
  "\<forall>a \<in> set (snd p). alert_ok (confidence_threshold (sim_config (fst p))) a \<Longrightarrow>
   \<forall>a \<in> set (snd (fold (process_cluster clf) js p)).
      alert_ok (confidence_threshold (sim_config (fst p))) a"
proof (induction js arbitrary: p)
  case Nil
  then show ?case by simp
next
  case (Cons j js)
  obtain s alerts where p: "p = (s, alerts)" by (cases p)
  let ?q = "process_cluster clf j (s, alerts)"
  have cfg: "sim_config (fst ?q) = sim_config s" by (rule process_cluster_config)
  have "\<forall>a \<in> set (snd ?q). alert_ok (confidence_threshold (sim_config s)) a"
    using Cons.prems process_cluster_alerts [of clf j s alerts] by (auto simp: p)
  then have "\<forall>a \<in> set (snd ?q). alert_ok (confidence_threshold (sim_config (fst ?q))) a"
    by (simp only: cfg)
  from Cons.IH [OF this] show ?case by (simp add: p cfg del: process_cluster.simps)
qed

lemma process_cluster_data_ok:
  "\<forall>a \<in> set (snd (process_cluster_data clf s)). alert_ok (confidence_threshold (sim_config s)) a"
  using fold_process_cluster_ok [of "(s, [])" clf "[0..<length (cluster_heads s)]"]
  by (simp add: process_cluster_data_def)

lemma demo_collect:
  "fst (collect_cluster_data (cluster_heads (demo_sim thr objs) ! 0)
          (sensor_nodes (demo_sim thr objs))) = Some demo_snapshot"
  by (simp add: demo_defs collect_cluster_data_def is_active_member_def is_in_range_def Let_def)

text \<open>
  Claim C8. \<open>analyze_intrusion\<close> never propagates an exception: without an input, without
  a \<open>sensor_summary\<close>, and whenever \<open>predict\<close> or \<open>predict_proba\<close> raises (or returns no
  probabilities, on which \<open>np.max\<close> raises) it returns \<open>('normal', 0.0)\<close> and leaves the
  gateway as it was; and a cluster whose analysis gave that result adds no alert and
  changes neither the gateway, the intrusions nor the metrics, so the loop goes on.
\<close>

theorem analyze_intrusion_degrades:
  "analyze_intrusion clf gw None = ((''normal'', 0), gw)
   \<and> (sensor_summary cd = None \<longrightarrow> analyze_intrusion clf gw (Some cd) = ((''normal'', 0), gw))
   \<and> (sensor_summary cd = Some summary \<and>
        (predict clf (features_of cd summary) = Inl e
         \<or> predict_proba clf (features_of cd summary) = Inl e
         \<or> predict_proba clf (features_of cd summary) = Inr [])
       \<longrightarrow> analyze_intrusion clf gw (Some cd) = ((''normal'', 0), gw))
   \<and> (fst (collect_cluster_data (cluster_heads s ! j) (sensor_nodes s)) = Some cd
        \<and> analyze_intrusion clf (gateway s) (Some cd) = ((''normal'', 0), gateway s)
       \<longrightarrow> snd (process_cluster clf j (s, alerts)) = alerts
           \<and> gateway (fst (process_cluster clf j (s, alerts))) = gateway s
           \<and> intrusion_objects (fst (process_cluster clf j (s, alerts))) = intrusion_objects s
           \<and> performance_metrics (fst (process_cluster clf j (s, alerts)))
               = performance_metrics s)"
  by (auto simp add: analyze_intrusion_def analyze_try_def Let_def split: sum.splits)

theorem analyze_intrusion_degrades_witness:
  "analyze_intrusion failing_classifier (gateway (demo_sim 0.95 [])) None
        = ((''normal'', 0), gateway (demo_sim 0.95 []))
   \<and> sensor_summary demo_snapshot = Some (aggregate_sensor_data [demo_node])
   \<and> predict failing_classifier
        (features_of demo_snapshot (aggregate_sensor_data [demo_node])) = Inl ModelError
   \<and> analyze_intrusion failing_classifier (gateway (demo_sim 0.95 [])) (Some demo_snapshot)
        = ((''normal'', 0), gateway (demo_sim 0.95 []))
   \<and> sensor_summary (demo_snapshot\<lparr>sensor_summary := None\<rparr>) = None
   \<and> analyze_intrusion failing_classifier (gateway (demo_sim 0.95 []))
        (Some (demo_snapshot\<lparr>sensor_summary := None\<rparr>))
        = ((''normal'', 0), gateway (demo_sim 0.95 []))
   \<and> fst (collect_cluster_data (cluster_heads (demo_sim 0.95 []) ! 0)
             (sensor_nodes (demo_sim 0.95 []))) = Some demo_snapshot
   \<and> snd (process_cluster failing_classifier 0 (demo_sim 0.95 [], [])) = []"
proof -
  have a: "sensor_summary demo_snapshot = Some (aggregate_sensor_data [demo_node])"
    by (simp add: demo_snapshot_def)
  have b: "predict failing_classifier
             (features_of demo_snapshot (aggregate_sensor_data [demo_node])) = Inl ModelError"
    by (simp add: failing_classifier_def)
  have c: "sensor_summary (demo_snapshot\<lparr>sensor_summary := None\<rparr>) = None" by simp
  note d = demo_collect [of "0.95" "[]"]
  note t1 = analyze_intrusion_degrades [of failing_classifier "gateway (demo_sim 0.95 [])"
      demo_snapshot "aggregate_sensor_data [demo_node]" ModelError "demo_sim 0.95 []" 0 "[]"]
  note t2 = analyze_intrusion_degrades [of failing_classifier "gateway (demo_sim 0.95 [])"
      "demo_snapshot\<lparr>sensor_summary := None\<rparr>" "aggregate_sensor_data [demo_node]"
      ModelError "demo_sim 0.95 []" 0 "[]"]
  show ?thesis using a b c d t1 t2 by (simp del: process_cluster.simps)
qed

text \<open>
  Claim C10, as amended. Every alert that \<open>_process_cluster_data\<close> creates has severity
  CRITICAL, HIGH or MEDIUM and never LOW whenever the confidence threshold is at least
  0.8; every alert of type \<open>human\<close> has severity CRITICAL whenever the threshold is at
  least 0.95, as it is in the shipped configuration.
\<close>

theorem alert_severity_bounds:
  "(0.8 \<le> confidence_threshold (sim_config s) \<longrightarrow>
      (\<forall>a \<in> set (snd (process_cluster_data clf s)).
         alert_severity a \<in> {''CRITICAL'', ''HIGH'', ''MEDIUM''} \<and> alert_severity a \<noteq> ''LOW''))
   \<and> (0.95 \<le> confidence_threshold (sim_config s) \<longrightarrow>
      (\<forall>a \<in> set (snd (process_cluster_data clf s)).
         alert_intrusion_type a = ''human'' \<longrightarrow> alert_severity a = ''CRITICAL''))"
  using process_cluster_data_ok [of clf s]
  by (auto simp add: alert_ok_def calculate_severity_def)

theorem alert_severity_bounds_witness:
  "0.8 \<le> confidence_threshold (sim_config (demo_sim 0.95 []))
   \<and> 0.95 \<le> confidence_threshold (sim_config (demo_sim 0.95 []))
   \<and> confidence_threshold SIMULATION_CONFIG = 0.95
   \<and> map alert_intrusion_type
        (snd (process_cluster_data (constant_classifier ''human'' 0.99) (demo_sim 0.95 [])))
        = [''human'']
   \<and> map alert_severity
        (snd (process_cluster_data (constant_classifier ''human'' 0.99) (demo_sim 0.95 [])))
        = [''CRITICAL'']"
  using alert_severity_bounds [of "demo_sim 0.95 []" "constant_classifier ''human'' 0.99"]
  by (simp add: demo_defs engine_defs)

text \<open>
  With the threshold at 0.8 a \<open>human\<close> classification of confidence 0.9 becomes an alert,
  and its severity is MEDIUM, not CRITICAL.
\<close>

theorem human_alert_not_critical:
  "0.8 \<le> confidence_threshold (sim_config (demo_sim 0.8 []))
   \<and> map alert_intrusion_type
        (snd (process_cluster_data (constant_classifier ''human'' 0.9) (demo_sim 0.8 [])))
        = [''human'']
   \<and> map alert_severity
        (snd (process_cluster_data (constant_classifier ''human'' 0.9) (demo_sim 0.8 [])))
        = [''MEDIUM'']"
  by (simp add: demo_defs engine_defs)

section \<open>Properties of the intrusion lifecycle and of detection matching\<close>

lemma detected_count_flip:
  "a < length objs \<Longrightarrow> \<not> detected (objs ! a) \<Longrightarrow>
   detected_count (objs[a := (objs ! a)\<lparr>detected := True\<rparr>]) = Suc (detected_count objs)"
proof (induction objs arbitrary: a)
  case Nil
  then show ?case by simp
next
  case (Cons x xs)
  show ?case
  proof (cases a)
    case 0
    with Cons.prems show ?thesis by (simp add: detected_count_def)
  next
    case (Suc k)
    with Cons.prems have "detected_count (xs[k := (xs ! k)\<lparr>detected := True\<rparr>]) = Suc (detected_count xs)"
      by (intro Cons.IH) simp_all
    with Suc show ?thesis by (simp add: detected_count_def)
  qed
qed

lemma detected_count_map:
  "detected_count objs = length (filter (\<lambda>b. b) (map detected objs))"
  by (induction objs) (simp_all add: detected_count_def)

lemma detected_count_same:
  "map detected objs' = map detected objs \<Longrightarrow> detected_count objs' = detected_count objs"
  by (simp add: detected_count_map)

lemma find_undetected_find:
  "find_undetected objs cx as = List.find (matchable objs cx) as"
  by (induction as) (simp_all add: matchable_def)

lemma find_undetected_Some:
  "find_undetected objs cx as = Some a \<Longrightarrow> a \<in> set as \<and> matchable objs cx a"
  by (induction as) (auto simp add: matchable_def split: if_splits)

lemma find_affected_Some:
  "find_affected objs px ty as = Some a \<Longrightarrow> a \<in> set as"
  by (induction as) (auto split: if_splits)

lemma intr_mono_refl: "intr_mono s s"
  by (simp add: intr_mono_def)

lemma intr_mono_trans:
  assumes "intr_mono s s'" and "intr_mono s' s''"
  shows "intr_mono s s''"
  using assms unfolding intr_mono_def
  by (auto simp add: less_le_trans)

lemma intr_mono_frame:
  "intrusion_objects s' = intrusion_objects s \<Longrightarrow>
   performance_metrics s' = performance_metrics s \<Longrightarrow> intr_mono s s'"
  by (simp add: intr_mono_def)

lemma fault_pass_frame [simp]:
  "intrusion_objects (fault_pass d s) = intrusion_objects s"
  "current_intrusions (fault_pass d s) = current_intrusions s"
  "performance_metrics (fault_pass d s) = performance_metrics s"
  "simulation_time (fault_pass d s) = simulation_time s"
  "sim_config (fault_pass d s) = sim_config s"
  by (simp_all add: fault_pass_def)

lemma update_energy_frame [simp]:
  "intrusion_objects (update_energy_consumption d s) = intrusion_objects s"
  "current_intrusions (update_energy_consumption d s) = current_intrusions s"
  "performance_metrics (update_energy_consumption d s) = performance_metrics s"
  "simulation_time (update_energy_consumption d s) = simulation_time s"
  "sim_config (update_energy_consumption d s) = sim_config s"
  by (simp_all add: update_energy_consumption_def)

lemma simulate_intrusions_frame [simp]:
  "simulation_time (simulate_intrusions d s) = simulation_time s"
  "sim_config (simulate_intrusions d s) = sim_config s"
  "sensor_nodes (simulate_intrusions d s) = sensor_nodes s"
  by (simp_all add: simulate_intrusions_def Let_def)

lemma simulate_intrusions_mono: "intr_mono s (simulate_intrusions d s)"
  by (simp add: intr_mono_def simulate_intrusions_def Let_def nth_append detected_count_def)

lemma simulate_intrusions_wf:
  "intrusions_wf s \<Longrightarrow> intrusions_wf (simulate_intrusions d s)"
  by (auto simp add: intrusions_wf_def simulate_intrusions_def Let_def less_Suc_eq)

lemma activate_nearby_frame [simp]:
  "current_intrusions (activate_nearby_sensors px ty s) = current_intrusions s"
  "performance_metrics (activate_nearby_sensors px ty s) = performance_metrics s"
  "simulation_time (activate_nearby_sensors px ty s) = simulation_time s"
  "sim_config (activate_nearby_sensors px ty s) = sim_config s"
  "length (intrusion_objects (activate_nearby_sensors px ty s)) = length (intrusion_objects s)"
  by (simp_all add: activate_nearby_sensors_def Let_def split: option.splits)

lemma nth_update_affected:
  "b < length xs \<Longrightarrow>
   xs[a := (xs ! a)\<lparr>affected_nodes := n\<rparr>] ! b
     = (xs ! b)\<lparr>affected_nodes := (if a = b then n else affected_nodes (xs ! b))\<rparr>"
  by (cases "a = b") simp_all

lemma activate_nearby_fields:
  "a < length (intrusion_objects s) \<Longrightarrow>
   itype (intrusion_objects (activate_nearby_sensors px ty s) ! a)
       = itype (intrusion_objects s ! a)
   \<and> position (intrusion_objects (activate_nearby_sensors px ty s) ! a)
       = position (intrusion_objects s ! a)
   \<and> start_time (intrusion_objects (activate_nearby_sensors px ty s) ! a)
       = start_time (intrusion_objects s ! a)
   \<and> duration (intrusion_objects (activate_nearby_sensors px ty s) ! a)
       = duration (intrusion_objects s ! a)
   \<and> detected (intrusion_objects (activate_nearby_sensors px ty s) ! a)
       = detected (intrusion_objects s ! a)"
  by (simp add: activate_nearby_sensors_def Let_def nth_update_affected split: option.splits)

lemma activate_nearby_detected:
  "map detected (intrusion_objects (activate_nearby_sensors px ty s))
     = map detected (intrusion_objects s)"
  by (simp add: list_eq_iff_nth_eq activate_nearby_fields)

lemma activate_nearby_mono: "intr_mono s (activate_nearby_sensors px ty s)"
  by (simp add: intr_mono_def detected_count_same [OF activate_nearby_detected]
        activate_nearby_fields)

lemma activate_nearby_wf:
  "intrusions_wf s \<Longrightarrow> intrusions_wf (activate_nearby_sensors px ty s)"
  by (simp add: intrusions_wf_def)

lemma activate_fold:
  "intr_mono s (fold (\<lambda>a s'. activate_nearby_sensors (position (intrusion_objects s' ! a))
                                   (itype (intrusion_objects s' ! a)) s') as s)
   \<and> current_intrusions (fold (\<lambda>a s'. activate_nearby_sensors
            (position (intrusion_objects s' ! a)) (itype (intrusion_objects s' ! a)) s') as s)
       = current_intrusions s
   \<and> simulation_time (fold (\<lambda>a s'. activate_nearby_sensors
            (position (intrusion_objects s' ! a)) (itype (intrusion_objects s' ! a)) s') as s)
       = simulation_time s
   \<and> sim_config (fold (\<lambda>a s'. activate_nearby_sensors
            (position (intrusion_objects s' ! a)) (itype (intrusion_objects s' ! a)) s') as s)
       = sim_config s"
proof (induction as arbitrary: s)
  case Nil
  show ?case by (simp add: intr_mono_refl)
next
  case (Cons a as)
  let ?s1 = "activate_nearby_sensors (position (intrusion_objects s ! a))
               (itype (intrusion_objects s ! a)) s"
  have "intr_mono s ?s1" by (rule activate_nearby_mono)
  with Cons.IH [of ?s1] show ?case
    by (auto intro: intr_mono_trans)
qed

lemma activate_all_mono: "intr_mono s (activate_all s)"
  using activate_fold [of s "current_intrusions s"] by (simp add: activate_all_def)

lemma activate_all_frame [simp]:
  "current_intrusions (activate_all s) = current_intrusions s"
  "simulation_time (activate_all s) = simulation_time s"
  "sim_config (activate_all s) = sim_config s"
  using activate_fold [of s "current_intrusions s"] by (simp_all add: activate_all_def)

lemma intr_mono_left:
  "intrusion_objects t = intrusion_objects s \<Longrightarrow>
   performance_metrics t = performance_metrics s \<Longrightarrow> intr_mono t u \<Longrightarrow> intr_mono s u"
  by (simp add: intr_mono_def)

lemma intr_mono_right:
  "intrusion_objects u' = intrusion_objects u \<Longrightarrow>
   performance_metrics u' = performance_metrics u \<Longrightarrow> intr_mono s u \<Longrightarrow> intr_mono s u'"
  by (simp add: intr_mono_def)

lemma collect_frame [simp]:
  "current_intrusions (collect_real_time_data d s) = current_intrusions s"
  "simulation_time (collect_real_time_data d s) = simulation_time s"
  "sim_config (collect_real_time_data d s) = sim_config s"
  by (simp_all add: collect_real_time_data_def Let_def)

lemma collect_mono: "intr_mono s (collect_real_time_data d s)"
proof -
  let ?s1 = "s\<lparr>sensor_nodes := reset_flags (sensor_nodes s)\<rparr>"
  have "intr_mono ?s1 (activate_all ?s1)" by (rule activate_all_mono)
  then have "intr_mono s (activate_all ?s1)" by (rule intr_mono_left [rotated 2]) simp_all
  then show ?thesis
    by (rule intr_mono_right [rotated 2]) (simp_all add: collect_real_time_data_def Let_def)
qed

lemma intrusions_wf_mono:
  "intrusions_wf s \<Longrightarrow> intr_mono s s' \<Longrightarrow> current_intrusions s' = current_intrusions s \<Longrightarrow>
   intrusions_wf s'"
  by (auto simp add: intrusions_wf_def intr_mono_def)

lemma mark_detected_frame [simp]:
  "current_intrusions (mark_detected cx s) = current_intrusions s"
  "simulation_time (mark_detected cx s) = simulation_time s"
  "sensor_nodes (mark_detected cx s) = sensor_nodes s"
  "gateway (mark_detected cx s) = gateway s"
  by (simp_all add: mark_detected_def Let_def split: option.splits)

lemma mark_detected_mono:
  assumes "intrusions_wf s"
  shows "intr_mono s (mark_detected cx s)"
proof (cases "find_undetected (intrusion_objects s) cx (current_intrusions s)")
  case None
  then show ?thesis by (simp add: mark_detected_def intr_mono_refl)
next
  case (Some a)
  from find_undetected_Some [OF Some] assms
  have a: "a < length (intrusion_objects s)" and nd: "\<not> detected (intrusion_objects s ! a)"
    by (auto simp add: intrusions_wf_def matchable_def)
  show ?thesis
    using Some a nd
    by (simp add: mark_detected_def Let_def intr_mono_def nth_list_update
          detected_count_flip)
qed

lemma process_cluster_frame [simp]:
  "current_intrusions (fst (process_cluster clf j (s, alerts))) = current_intrusions s"
  "simulation_time (fst (process_cluster clf j (s, alerts))) = simulation_time s"
  by (simp_all add: Let_def split: option.splits)

lemma process_cluster_mono:
  assumes "intrusions_wf s"
  shows "intr_mono s (fst (process_cluster clf j (s, alerts)))"
proof -
  have m: "\<And>(t::simulator) cx. intrusion_objects t = intrusion_objects s \<Longrightarrow>
             performance_metrics t = performance_metrics s \<Longrightarrow>
             current_intrusions t = current_intrusions s \<Longrightarrow> intr_mono s (mark_detected cx t)"
  proof -
    fix t :: simulator and cx
    assume h: "intrusion_objects t = intrusion_objects s"
      "performance_metrics t = performance_metrics s"
      "current_intrusions t = current_intrusions s"
    with assms have "intrusions_wf t" by (simp add: intrusions_wf_def)
    then have "intr_mono t (mark_detected cx t)" by (rule mark_detected_mono)
    with h show "intr_mono s (mark_detected cx t)" by (simp add: intr_mono_def)
  qed
  show ?thesis
    by (simp add: Let_def m intr_mono_frame split: option.splits)
qed

declare process_cluster.simps [simp del]

lemma process_cluster_wf:
  "intrusions_wf s \<Longrightarrow> intrusions_wf (fst (process_cluster clf j (s, alerts)))"
  by (rule intrusions_wf_mono [OF _ process_cluster_mono]) simp_all

lemma process_fold_mono:
  "intrusions_wf (fst p) \<Longrightarrow>
   intr_mono (fst p) (fst (fold (process_cluster clf) js p))
   \<and> current_intrusions (fst (fold (process_cluster clf) js p)) = current_intrusions (fst p)
   \<and> simulation_time (fst (fold (process_cluster clf) js p)) = simulation_time (fst p)
   \<and> sim_config (fst (fold (process_cluster clf) js p)) = sim_config (fst p)"
proof (induction js arbitrary: p)
  case Nil
  show ?case by (simp add: intr_mono_refl)
next
  case (Cons j js)
  obtain s alerts where p: "p = (s, alerts)" by (cases p)
  let ?q = "process_cluster clf j (s, alerts)"
  from Cons.prems have wf: "intrusions_wf s" by (simp add: p)
  have 1: "intr_mono s (fst ?q)" by (rule process_cluster_mono [OF wf])
  have 2: "intrusions_wf (fst ?q)" by (rule process_cluster_wf [OF wf])
  from Cons.IH [OF 2] 1 show ?case
    by (auto simp add: p intro: intr_mono_trans)
qed

lemma process_cluster_data_mono:
  "intrusions_wf s \<Longrightarrow> intr_mono s (fst (process_cluster_data clf s))"
  using process_fold_mono [of "(s, [])" clf "[0..<length (cluster_heads s)]"]
  by (simp add: process_cluster_data_def)

lemma process_cluster_data_frame [simp]:
  "intrusions_wf s \<Longrightarrow>
     current_intrusions (fst (process_cluster_data clf s)) = current_intrusions s"
  "intrusions_wf s \<Longrightarrow>
     simulation_time (fst (process_cluster_data clf s)) = simulation_time s"
  "intrusions_wf s \<Longrightarrow> sim_config (fst (process_cluster_data clf s)) = sim_config s"
  using process_fold_mono [of "(s, [])" clf "[0..<length (cluster_heads s)]"]
  by (simp_all add: process_cluster_data_def)

text \<open>The intrusion list after a cycle is the one the expiry and spawn pass left.\<close>

lemma cycle_current:
  "intrusions_wf s \<Longrightarrow>
   current_intrusions (fst (run_realtime_cycle clf d s))
     = current_intrusions (simulate_intrusions d (s\<lparr>cycle_count := cycle_count s + 1\<rparr>))"
proof -
  assume wf: "intrusions_wf s"
  let ?s2 = "simulate_intrusions d (fault_pass d (s\<lparr>cycle_count := cycle_count s + 1\<rparr>))"
  have "intrusions_wf (fault_pass d (s\<lparr>cycle_count := cycle_count s + 1\<rparr>))"
    using wf by (simp add: intrusions_wf_def)
  then have "intrusions_wf ?s2" by (rule simulate_intrusions_wf)
  then have wf3: "intrusions_wf (collect_real_time_data d ?s2)"
    by (rule intrusions_wf_mono [OF _ collect_mono]) simp
  have "current_intrusions (fst (run_realtime_cycle clf d s)) = current_intrusions ?s2"
    using wf3 by (simp add: run_realtime_cycle_def Let_def)
  also have "\<dots> = current_intrusions
                      (simulate_intrusions d (s\<lparr>cycle_count := cycle_count s + 1\<rparr>))"
    by (simp add: simulate_intrusions_def Let_def)
  finally show ?thesis .
qed

lemma cycle_mono:
  assumes wf: "intrusions_wf s"
  shows "intr_mono s (fst (run_realtime_cycle clf d s)) \<and> intrusions_wf (fst (run_realtime_cycle clf d s))"
proof -
  let ?s0 = "s\<lparr>cycle_count := cycle_count s + 1\<rparr>"
  let ?s1 = "fault_pass d ?s0"
  let ?s2 = "simulate_intrusions d ?s1"
  let ?s3 = "collect_real_time_data d ?s2"
  let ?s4 = "fst (process_cluster_data clf ?s3)"
  let ?s5 = "update_energy_consumption d ?s4"
  have wf1: "intrusions_wf ?s1" using wf by (simp add: intrusions_wf_def)
  have m1: "intr_mono s ?s1" by (simp add: intr_mono_frame)
  have wf2: "intrusions_wf ?s2" using wf1 by (rule simulate_intrusions_wf)
  have m2: "intr_mono ?s1 ?s2" by (rule simulate_intrusions_mono)
  have m3: "intr_mono ?s2 ?s3" by (rule collect_mono)
  have wf3: "intrusions_wf ?s3" by (rule intrusions_wf_mono [OF wf2 m3]) simp
  have m4: "intr_mono ?s3 ?s4" by (rule process_cluster_data_mono [OF wf3])
  have c4: "current_intrusions ?s4 = current_intrusions ?s3"
    by (rule process_cluster_data_frame(1) [OF wf3])
  have wf4: "intrusions_wf ?s4" by (rule intrusions_wf_mono [OF wf3 m4 c4])
  have m5: "intr_mono ?s4 ?s5" by (simp add: intr_mono_frame)
  have wf5: "intrusions_wf ?s5" using wf4 by (simp add: intrusions_wf_def)
  have m: "intr_mono s ?s5"
    by (rule intr_mono_trans [OF m1 intr_mono_trans [OF m2 intr_mono_trans [OF m3
          intr_mono_trans [OF m4 m5]]]])
  have e: "fst (run_realtime_cycle clf d s)
             = ?s5\<lparr>simulation_time := simulation_time ?s5 + cycle_duration (sim_config ?s5)\<rparr>"
    by (simp add: run_realtime_cycle_def Let_def)
  have "intr_mono s (fst (run_realtime_cycle clf d s))"
    by (rule intr_mono_right [OF _ _ m]) (simp_all add: e)
  moreover have "intrusions_wf (fst (run_realtime_cycle clf d s))"
    using wf5 by (simp add: e intrusions_wf_def)
  ultimately show ?thesis ..
qed

lemma run_mono:
  "intrusions_wf s \<Longrightarrow>
   intr_mono s (run_perfect_simulation clf ds s) \<and> intrusions_wf (run_perfect_simulation clf ds s)"
proof (induction ds arbitrary: s)
  case Nil
  then show ?case by (simp add: run_perfect_simulation_def intr_mono_refl)
next
  case (Cons d ds)
  from cycle_mono [OF Cons.prems, of clf d]
  have 1: "intr_mono s (fst (run_realtime_cycle clf d s))"
    and 2: "intrusions_wf (fst (run_realtime_cycle clf d s))" by simp_all
  from Cons.IH [OF 2] 1 show ?case
    by (auto simp add: run_perfect_simulation_def intro: intr_mono_trans)
qed

lemmas cycle_defs = run_realtime_cycle_def fault_pass_def fault_pass_node_def
  simulate_sensor_fault_def simulate_intrusions_def not_expired_def collect_real_time_data_def
  reset_flags_def activate_all_def activate_nearby_sensors_def activate_node_def
  in_activation_range_def activation_pattern_def collect_node_def update_sensor_history_def
  update_energy_consumption_def update_node_energy_def node_consumption_def any_reading_def
  indexed_def quiet_draws_def process_cluster.simps

lemma mark_detected_other_fields [simp]:
  "intrusion_objects (mark_detected cx (s\<lparr>gateway := g\<rparr>))
     = intrusion_objects (mark_detected cx s)"
  "intrusion_objects (mark_detected cx (s\<lparr>sensor_nodes := ns\<rparr>))
     = intrusion_objects (mark_detected cx s)"
  "intrusion_objects (mark_detected cx (s\<lparr>cluster_heads := hs\<rparr>))
     = intrusion_objects (mark_detected cx s)"
  "performance_metrics (mark_detected cx (s\<lparr>gateway := g\<rparr>))
     = performance_metrics (mark_detected cx s)"
  "performance_metrics (mark_detected cx (s\<lparr>sensor_nodes := ns\<rparr>))
     = performance_metrics (mark_detected cx s)"
  "performance_metrics (mark_detected cx (s\<lparr>cluster_heads := hs\<rparr>))
     = performance_metrics (mark_detected cx s)"
  by (simp_all add: mark_detected_def Let_def split: option.splits)

lemma collect_cluster_position:
  "fst (collect_cluster_data ch nodes) = Some cd \<Longrightarrow> cluster_position cd = (ch_x ch, ch_y ch)"
  by (auto simp add: collect_cluster_data_def Let_def split: if_splits)

lemma process_cluster_matcher:
  "(snd (process_cluster clf j (s, alerts)) = alerts
      \<and> intrusion_objects (fst (process_cluster clf j (s, alerts))) = intrusion_objects s
      \<and> performance_metrics (fst (process_cluster clf j (s, alerts))) = performance_metrics s)
   \<or> (length (snd (process_cluster clf j (s, alerts))) = Suc (length alerts)
      \<and> intrusion_objects (fst (process_cluster clf j (s, alerts)))
          = intrusion_objects (mark_detected (ch_x (cluster_heads s ! j)) s)
      \<and> performance_metrics (fst (process_cluster clf j (s, alerts)))
          = performance_metrics (mark_detected (ch_x (cluster_heads s ! j)) s))"
proof (cases "fst (collect_cluster_data (cluster_heads s ! j) (sensor_nodes s))")
  case None
  then show ?thesis by (simp add: process_cluster.simps Let_def)
next
  case (Some cd)
  have pos: "fst (cluster_position cd) = ch_x (cluster_heads s ! j)"
    using collect_cluster_position [OF Some] by simp
  show ?thesis
    using Some pos
    by (simp add: process_cluster.simps Let_def)
qed

text \<open>
  Claim C1, as amended. The matcher that runs when an alert is created takes the first
  current intrusion whose \<open>detected\<close> flag is false and whose position is within 100 of
  the alerting cluster head's x position, whatever its type: it sets the flag, adds one to
  \<open>detected_intrusions\<close> and records the latency, simulation time minus spawn time; when
  no current intrusion qualifies the state is unchanged. A cluster that creates an alert
  runs exactly this matcher at its own position, and one that creates none leaves the
  intrusions and the metrics alone.
\<close>

theorem matcher_takes_first_undetected_in_range:
  assumes "intrusions_wf s"
  shows "((\<exists>i < length (current_intrusions s).
            \<not> detected (intrusion_objects s ! (current_intrusions s ! i))
            \<and> \<bar>position (intrusion_objects s ! (current_intrusions s ! i)) - cx\<bar> < 100
            \<and> (\<forall>k < i. \<not> matchable (intrusion_objects s) cx (current_intrusions s ! k))
            \<and> intrusion_objects (mark_detected cx s)
                = (intrusion_objects s)[current_intrusions s ! i :=
                     (intrusion_objects s ! (current_intrusions s ! i))\<lparr>detected := True\<rparr>]
            \<and> detected (intrusion_objects (mark_detected cx s) ! (current_intrusions s ! i))
            \<and> response_times (performance_metrics (mark_detected cx s))
                = response_times (performance_metrics s)
                  @ [simulation_time s
                       - start_time (intrusion_objects s ! (current_intrusions s ! i))]
            \<and> detected_intrusions (performance_metrics (mark_detected cx s))
                = detected_intrusions (performance_metrics s) + 1)
          \<or> ((\<forall>a \<in> set (current_intrusions s). \<not> matchable (intrusion_objects s) cx a)
              \<and> mark_detected cx s = s))
         \<and> ((snd (process_cluster clf j (s, alerts)) = alerts
               \<and> intrusion_objects (fst (process_cluster clf j (s, alerts))) = intrusion_objects s
               \<and> performance_metrics (fst (process_cluster clf j (s, alerts)))
                   = performance_metrics s)
             \<or> (length (snd (process_cluster clf j (s, alerts))) = Suc (length alerts)
               \<and> intrusion_objects (fst (process_cluster clf j (s, alerts)))
                   = intrusion_objects (mark_detected (ch_x (cluster_heads s ! j)) s)
               \<and> performance_metrics (fst (process_cluster clf j (s, alerts)))
                   = performance_metrics (mark_detected (ch_x (cluster_heads s ! j)) s)))"
proof (rule conjI)
  let ?objs = "intrusion_objects s" and ?cur = "current_intrusions s"
  show "(\<exists>i < length ?cur.
            \<not> detected (?objs ! (?cur ! i))
            \<and> \<bar>position (?objs ! (?cur ! i)) - cx\<bar> < 100
            \<and> (\<forall>k < i. \<not> matchable ?objs cx (?cur ! k))
            \<and> intrusion_objects (mark_detected cx s)
                = ?objs[?cur ! i := (?objs ! (?cur ! i))\<lparr>detected := True\<rparr>]
            \<and> detected (intrusion_objects (mark_detected cx s) ! (?cur ! i))
            \<and> response_times (performance_metrics (mark_detected cx s))
                = response_times (performance_metrics s)
                  @ [simulation_time s - start_time (?objs ! (?cur ! i))]
            \<and> detected_intrusions (performance_metrics (mark_detected cx s))
                = detected_intrusions (performance_metrics s) + 1)
          \<or> ((\<forall>a \<in> set ?cur. \<not> matchable ?objs cx a) \<and> mark_detected cx s = s)"
  proof (cases "find_undetected ?objs cx ?cur")
    case None
    then have "\<forall>a \<in> set ?cur. \<not> matchable ?objs cx a"
      by (simp add: find_undetected_find find_None_iff)
    moreover from None have "mark_detected cx s = s" by (simp add: mark_detected_def)
    ultimately show ?thesis by blast
  next
    case (Some a)
    then obtain i where i: "i < length ?cur" "matchable ?objs cx (?cur ! i)" "a = ?cur ! i"
      "\<forall>k < i. \<not> matchable ?objs cx (?cur ! k)"
      by (auto simp add: find_undetected_find find_Some_iff)
    from i(1,3) assms have len: "a < length ?objs" by (simp add: intrusions_wf_def)
    have "\<not> detected (?objs ! (?cur ! i)) \<and> \<bar>position (?objs ! (?cur ! i)) - cx\<bar> < 100"
      using i(2) by (simp add: matchable_def)
    moreover have "intrusion_objects (mark_detected cx s)
                = ?objs[?cur ! i := (?objs ! (?cur ! i))\<lparr>detected := True\<rparr>]"
      using Some i(3) by (simp add: mark_detected_def Let_def)
    moreover have "detected (intrusion_objects (mark_detected cx s) ! (?cur ! i))"
      using Some i(3) len by (simp add: mark_detected_def Let_def)
    moreover have "response_times (performance_metrics (mark_detected cx s))
                = response_times (performance_metrics s)
                  @ [simulation_time s - start_time (?objs ! (?cur ! i))]"
      using Some i(3) by (simp add: mark_detected_def Let_def)
    moreover have "detected_intrusions (performance_metrics (mark_detected cx s))
                = detected_intrusions (performance_metrics s) + 1"
      using Some i(3) by (simp add: mark_detected_def Let_def)
    ultimately show ?thesis using i(1,4) by blast
  qed
next
  show "(snd (process_cluster clf j (s, alerts)) = alerts
               \<and> intrusion_objects (fst (process_cluster clf j (s, alerts))) = intrusion_objects s
               \<and> performance_metrics (fst (process_cluster clf j (s, alerts)))
                   = performance_metrics s)
             \<or> (length (snd (process_cluster clf j (s, alerts))) = Suc (length alerts)
               \<and> intrusion_objects (fst (process_cluster clf j (s, alerts)))
                   = intrusion_objects (mark_detected (ch_x (cluster_heads s ! j)) s)
               \<and> performance_metrics (fst (process_cluster clf j (s, alerts)))
                   = performance_metrics (mark_detected (ch_x (cluster_heads s ! j)) s))"
    by (rule process_cluster_matcher)
qed

theorem matcher_takes_first_undetected_in_range_witness:
  "intrusions_wf (demo_sim 0.95 [demo_intrusion ''vehicle'', demo_intrusion ''human''])
   \<and> map itype (intrusion_objects
        (mark_detected 500 (demo_sim 0.95 [demo_intrusion ''vehicle'', demo_intrusion ''human''])))
       = [''vehicle'', ''human'']
   \<and> map detected (intrusion_objects
        (mark_detected 500 (demo_sim 0.95 [demo_intrusion ''vehicle'', demo_intrusion ''human''])))
       = [True, False]
   \<and> response_times (performance_metrics
        (mark_detected 500 (demo_sim 0.95 [demo_intrusion ''vehicle'', demo_intrusion ''human''])))
       = [2]"
  using matcher_takes_first_undetected_in_range
          [of "demo_sim 0.95 [demo_intrusion ''vehicle'', demo_intrusion ''human'']" 500
              "constant_classifier ''human'' 0.99" 0 "[]"]
  by (simp add: intrusions_wf_def demo_defs mark_detected_def matchable_def)

text \<open>
  A \<open>human\<close> alert from cluster \<open>CH1\<close> marks the current \<open>vehicle\<close> intrusion at position
  480 as detected: the matcher does not look at the type.
\<close>

theorem human_alert_marks_vehicle_intrusion:
  "map itype (intrusion_objects (demo_sim 0.95 [demo_intrusion ''vehicle''])) = [''vehicle'']
   \<and> map detected (intrusion_objects (demo_sim 0.95 [demo_intrusion ''vehicle''])) = [False]
   \<and> map alert_intrusion_type
        (snd (process_cluster_data (constant_classifier ''human'' 0.99)
                (demo_sim 0.95 [demo_intrusion ''vehicle'']))) = [''human'']
   \<and> map detected (intrusion_objects
        (fst (process_cluster_data (constant_classifier ''human'' 0.99)
                (demo_sim 0.95 [demo_intrusion ''vehicle''])))) = [True]"
  by (simp add: demo_defs engine_defs process_cluster.simps)

text \<open>
  Claim C4. Over a whole run, no intrusion that carries \<open>detected = True\<close> loses the
  flag, and the \<open>detected_intrusions\<close> counter, which every detection event increments,
  grows by exactly the number of intrusions whose flag went from false to true: no
  intrusion is flipped by two events. The matcher never selects an intrusion whose flag
  is already true, and a single detection event keeps every flag that was set.
\<close>

theorem detected_flag_set_at_most_once:
  assumes "intrusions_wf s"
  shows "(\<forall>a < length (intrusion_objects s).
            detected (intrusion_objects s ! a) \<longrightarrow>
              detected (intrusion_objects (run_perfect_simulation clf ds s) ! a)
              \<and> detected (intrusion_objects (mark_detected cx s) ! a)
              \<and> find_undetected (intrusion_objects s) cx (current_intrusions s) \<noteq> Some a)
         \<and> detected_intrusions (performance_metrics (run_perfect_simulation clf ds s))
              + detected_count (intrusion_objects s)
            = detected_intrusions (performance_metrics s)
              + detected_count (intrusion_objects (run_perfect_simulation clf ds s))
         \<and> detected_intrusions (performance_metrics (mark_detected cx s))
              + detected_count (intrusion_objects s)
            = detected_intrusions (performance_metrics s)
              + detected_count (intrusion_objects (mark_detected cx s))
         \<and> detected_count (intrusion_objects (mark_detected cx s))
            \<le> Suc (detected_count (intrusion_objects s))"
proof -
  have r: "intr_mono s (run_perfect_simulation clf ds s)"
    using run_mono [OF assms] by simp
  have m: "intr_mono s (mark_detected cx s)" by (rule mark_detected_mono [OF assms])
  have f: "\<And>a. detected (intrusion_objects s ! a) \<Longrightarrow>
             find_undetected (intrusion_objects s) cx (current_intrusions s) \<noteq> Some a"
    using find_undetected_Some by (fastforce simp add: matchable_def)
  have c: "detected_intrusions (performance_metrics (mark_detected cx s))
             \<le> Suc (detected_intrusions (performance_metrics s))"
    by (simp add: mark_detected_def Let_def split: option.splits)
  from r m f c show ?thesis
    unfolding intr_mono_def by auto
qed

theorem detected_flag_set_at_most_once_witness:
  "intrusions_wf (demo_sim 0.95 [demo_intrusion ''human''])
   \<and> map detected (intrusion_objects
        (run_perfect_simulation (constant_classifier ''human'' 0.99) [quiet_draws]
           (demo_sim 0.95 [demo_intrusion ''human'']))) = [True]
   \<and> detected_intrusions (performance_metrics
        (run_perfect_simulation (constant_classifier ''human'' 0.99) [quiet_draws]
           (demo_sim 0.95 [demo_intrusion ''human''])))
       + detected_count (intrusion_objects (demo_sim 0.95 [demo_intrusion ''human'']))
      = detected_intrusions (performance_metrics (demo_sim 0.95 [demo_intrusion ''human'']))
       + detected_count (intrusion_objects
           (run_perfect_simulation (constant_classifier ''human'' 0.99) [quiet_draws]
              (demo_sim 0.95 [demo_intrusion ''human''])))
   \<and> intrusions_wf (demo_sim 0.95 [(demo_intrusion ''human'')\<lparr>detected := True\<rparr>])
   \<and> detected (intrusion_objects
        (demo_sim 0.95 [(demo_intrusion ''human'')\<lparr>detected := True\<rparr>]) ! 0)
   \<and> detected (intrusion_objects
        (run_perfect_simulation (constant_classifier ''human'' 0.99) [quiet_draws, quiet_draws]
           (demo_sim 0.95 [(demo_intrusion ''human'')\<lparr>detected := True\<rparr>])) ! 0)"
proof -
  have w1: "intrusions_wf (demo_sim 0.95 [demo_intrusion ''human''])"
    by (simp add: intrusions_wf_def demo_sim_def)
  have w2: "intrusions_wf (demo_sim 0.95 [(demo_intrusion ''human'')\<lparr>detected := True\<rparr>])"
    by (simp add: intrusions_wf_def demo_sim_def)
  have d2: "detected (intrusion_objects
        (demo_sim 0.95 [(demo_intrusion ''human'')\<lparr>detected := True\<rparr>]) ! 0)"
    by (simp add: demo_sim_def)
  have l2: "0 < length (intrusion_objects
        (demo_sim 0.95 [(demo_intrusion ''human'')\<lparr>detected := True\<rparr>]))"
    by (simp add: demo_sim_def)
  have e: "map detected (intrusion_objects
        (run_perfect_simulation (constant_classifier ''human'' 0.99) [quiet_draws]
           (demo_sim 0.95 [demo_intrusion ''human'']))) = [True]"
    by (simp add: run_perfect_simulation_def cycle_defs demo_defs engine_defs)
  note t1 = detected_flag_set_at_most_once [OF w1, of "constant_classifier ''human'' 0.99"
               "[quiet_draws]" 500]
  note t2 = detected_flag_set_at_most_once [OF w2, of "constant_classifier ''human'' 0.99"
               "[quiet_draws, quiet_draws]" 500]
  from t2 l2 d2 have "detected (intrusion_objects
        (run_perfect_simulation (constant_classifier ''human'' 0.99) [quiet_draws, quiet_draws]
           (demo_sim 0.95 [(demo_intrusion ''human'')\<lparr>detected := True\<rparr>])) ! 0)"
    by blast
  with w1 w2 d2 e t1 show ?thesis by blast
qed

text \<open>
  Claim C5. An intrusion of the active set is kept by the expiry and spawn pass exactly
  when the simulation time minus its spawn time is less than its duration, so it is
  removed exactly when that difference has reached the duration; its \<open>detected\<close> flag
  plays no part, the pass leaves its dictionary untouched, and no later phase of the
  cycle changes the set.
\<close>

theorem intrusion_expires_exactly_at_duration:
  assumes "intrusions_wf s" and "a \<in> set (current_intrusions s)"
  shows "(a \<in> set (current_intrusions (simulate_intrusions d s)) \<longleftrightarrow>
            simulation_time s - start_time (intrusion_objects s ! a)
              < real_of_int (duration (intrusion_objects s ! a)))
         \<and> (a \<notin> set (current_intrusions (simulate_intrusions d s)) \<longleftrightarrow>
            simulation_time s - start_time (intrusion_objects s ! a)
              \<ge> real_of_int (duration (intrusion_objects s ! a)))
         \<and> (a \<in> set (current_intrusions (fst (run_realtime_cycle clf d s))) \<longleftrightarrow>
            simulation_time s - start_time (intrusion_objects s ! a)
              < real_of_int (duration (intrusion_objects s ! a)))
         \<and> intrusion_objects (simulate_intrusions d s) ! a = intrusion_objects s ! a"
proof -
  from assms have len: "a < length (intrusion_objects s)" by (simp add: intrusions_wf_def)
  have 1: "a \<in> set (current_intrusions (simulate_intrusions d s)) \<longleftrightarrow>
            simulation_time s - start_time (intrusion_objects s ! a)
              < real_of_int (duration (intrusion_objects s ! a))"
    using assms(2) len by (auto simp add: simulate_intrusions_def Let_def not_expired_def)
  have 2: "current_intrusions (fst (run_realtime_cycle clf d s))
             = current_intrusions (simulate_intrusions d s)"
    by (simp add: cycle_current [OF assms(1)] simulate_intrusions_def Let_def)
  have 3: "intrusion_objects (simulate_intrusions d s) ! a = intrusion_objects s ! a"
    using len by (simp add: simulate_intrusions_def Let_def nth_append)
  from 1 2 3 show ?thesis by auto
qed

theorem intrusion_expires_exactly_at_duration_witness:
  "intrusions_wf (demo_sim 0.95 [demo_intrusion ''human''])
   \<and> 0 \<in> set (current_intrusions (demo_sim 0.95 [demo_intrusion ''human'']))
   \<and> simulation_time (demo_sim 0.95 [demo_intrusion ''human''])
        - start_time (intrusion_objects (demo_sim 0.95 [demo_intrusion ''human'']) ! 0) = 2
   \<and> duration (intrusion_objects (demo_sim 0.95 [demo_intrusion ''human'']) ! 0) = 40
   \<and> 0 \<in> set (current_intrusions
                (simulate_intrusions quiet_draws (demo_sim 0.95 [demo_intrusion ''human''])))
   \<and> intrusions_wf ((demo_sim 0.95 [demo_intrusion ''human''])\<lparr>simulation_time := 43\<rparr>)
   \<and> 0 \<in> set (current_intrusions
                ((demo_sim 0.95 [demo_intrusion ''human''])\<lparr>simulation_time := 43\<rparr>))
   \<and> 0 \<notin> set (current_intrusions
                (simulate_intrusions quiet_draws
                   ((demo_sim 0.95 [demo_intrusion ''human''])\<lparr>simulation_time := 43\<rparr>)))
   \<and> 0 \<notin> set (current_intrusions
                (fst (run_realtime_cycle (constant_classifier ''human'' 0.99) quiet_draws
                   ((demo_sim 0.95 [demo_intrusion ''human''])\<lparr>simulation_time := 43\<rparr>))))"
proof -
  have w1: "intrusions_wf (demo_sim 0.95 [demo_intrusion ''human''])"
    by (simp add: intrusions_wf_def demo_sim_def)
  have m1: "0 \<in> set (current_intrusions (demo_sim 0.95 [demo_intrusion ''human'']))"
    by (simp add: demo_sim_def)
  have w2: "intrusions_wf ((demo_sim 0.95 [demo_intrusion ''human''])\<lparr>simulation_time := 43\<rparr>)"
    by (simp add: intrusions_wf_def demo_sim_def)
  have m2: "0 \<in> set (current_intrusions
                ((demo_sim 0.95 [demo_intrusion ''human''])\<lparr>simulation_time := 43\<rparr>))"
    by (simp add: demo_sim_def)
  note t1 = intrusion_expires_exactly_at_duration [OF w1 m1, of quiet_draws
              "constant_classifier ''human'' 0.99"]
  note t2 = intrusion_expires_exactly_at_duration [OF w2 m2, of quiet_draws
              "constant_classifier ''human'' 0.99"]
  show ?thesis using w1 m1 w2 m2 t1 t2
    by (simp add: demo_sim_def demo_intrusion_def)
qed

section \<open>Properties of the node state across the phases\<close>

lemma map_indexed:
  assumes h: "\<And>i n. g (f i n) = g n"
  shows "map (g \<circ> (\<lambda>(i, n). f i n)) (indexed xs) = map g xs"
proof (rule nth_equalityI)
  show "length (map (g \<circ> (\<lambda>(i, n). f i n)) (indexed xs)) = length (map g xs)"
    by (simp add: indexed_def)
next
  fix k
  assume "k < length (map (g \<circ> (\<lambda>(i, n). f i n)) (indexed xs))"
  then have k: "k < length xs" by (simp add: indexed_def)
  then have "map (g \<circ> (\<lambda>(i, n). f i n)) (indexed xs) ! k = g (f k (xs ! k))"
    by (simp add: indexed_def)
  also have "\<dots> = g (xs ! k)" by (rule h)
  finally show "map (g \<circ> (\<lambda>(i, n). f i n)) (indexed xs) ! k = map g xs ! k"
    using k by simp
qed

lemma ignores_dynamic_simps:
  "ignores_dynamic g \<Longrightarrow> g (n\<lparr>sensor_readings := r\<rparr>) = g n"
  "ignores_dynamic g \<Longrightarrow> g (n\<lparr>camera_module := c\<rparr>) = g n"
  "ignores_dynamic g \<Longrightarrow> g (n\<lparr>camera_status := cs\<rparr>) = g n"
  "ignores_dynamic g \<Longrightarrow> g (n\<lparr>thermal_history := h\<rparr>) = g n"
  by (simp_all add: ignores_dynamic_def)

lemma ignores_dynamic_fields [simp]:
  "ignores_dynamic battery" "ignores_dynamic is_active" "ignores_dynamic node_x"
  "ignores_dynamic cluster_head_id" "ignores_dynamic node_y" "ignores_dynamic has_camera"
  by (simp_all add: ignores_dynamic_def)

lemma fault_pass_node_view:
  "ignores_dynamic g \<Longrightarrow> g (fault_pass_node d i n) = g n"
  by (simp add: fault_pass_node_def simulate_sensor_fault_def Let_def ignores_dynamic_simps)

lemma collect_node_view: "ignores_dynamic g \<Longrightarrow> g (collect_node d i n) = g n"
  by (simp add: collect_node_def update_sensor_history_def Let_def ignores_dynamic_simps)

lemma activate_node_view: "ignores_dynamic g \<Longrightarrow> g (activate_node cfg px ty n) = g n"
  by (simp add: activate_node_def ignores_dynamic_simps)

lemma update_sensor_history_view: "ignores_dynamic g \<Longrightarrow> g (update_sensor_history n) = g n"
  by (simp add: update_sensor_history_def Let_def ignores_dynamic_simps)

lemma fault_pass_view:
  "ignores_dynamic g \<Longrightarrow> map g (sensor_nodes (fault_pass d s)) = map g (sensor_nodes s)"
  by (simp add: fault_pass_def map_indexed [of g "fault_pass_node d"] fault_pass_node_view)

lemma activate_nearby_view:
  "ignores_dynamic g \<Longrightarrow>
   map g (sensor_nodes (activate_nearby_sensors px ty s)) = map g (sensor_nodes s)"
  by (simp add: activate_nearby_sensors_def Let_def activate_node_view comp_def)

lemma activate_fold_view:
  "ignores_dynamic g \<Longrightarrow>
   map g (sensor_nodes (fold (\<lambda>a s'. activate_nearby_sensors
            (position (intrusion_objects s' ! a)) (itype (intrusion_objects s' ! a)) s') as s))
     = map g (sensor_nodes s)"
  by (induction as arbitrary: s) (simp_all add: activate_nearby_view)

lemma reset_flags_view: "ignores_dynamic g \<Longrightarrow> map g (reset_flags nodes) = map g nodes"
  by (simp add: reset_flags_def comp_def ignores_dynamic_simps)

lemma collect_view:
  "ignores_dynamic g \<Longrightarrow>
   map g (sensor_nodes (collect_real_time_data d s)) = map g (sensor_nodes s)"
  by (simp add: collect_real_time_data_def Let_def map_indexed [of g "collect_node d"]
        collect_node_view activate_all_def activate_fold_view reset_flags_view)

lemma collect_cluster_data_view:
  "ignores_dynamic g \<Longrightarrow> map g (snd (snd (collect_cluster_data ch nodes))) = map g nodes"
  by (simp add: collect_cluster_data_def Let_def comp_def update_sensor_history_view
        cong: map_cong)

lemma process_cluster_view:
  "ignores_dynamic g \<Longrightarrow>
   map g (sensor_nodes (fst (process_cluster clf j (s, alerts)))) = map g (sensor_nodes s)"
  by (simp add: process_cluster.simps Let_def collect_cluster_data_view split: option.splits)

lemma process_fold_view:
  "ignores_dynamic g \<Longrightarrow>
   map g (sensor_nodes (fst (fold (process_cluster clf) js p))) = map g (sensor_nodes (fst p))
   \<and> sim_config (fst (fold (process_cluster clf) js p)) = sim_config (fst p)"
proof (induction js arbitrary: p)
  case Nil
  show ?case by simp
next
  case (Cons j js)
  obtain s alerts where p: "p = (s, alerts)" by (cases p)
  from Cons.IH [OF Cons.prems, of "process_cluster clf j (s, alerts)"] Cons.prems
  show ?case by (simp add: p process_cluster_view)
qed

lemma process_cluster_data_view:
  "ignores_dynamic g \<Longrightarrow>
   map g (sensor_nodes (fst (process_cluster_data clf s))) = map g (sensor_nodes s)"
  using process_fold_view [of g clf "[0..<length (cluster_heads s)]" "(s, [])"]
  by (simp add: process_cluster_data_def)

lemma process_cluster_data_config [simp]:
  "sim_config (fst (process_cluster_data clf s)) = sim_config s"
  using process_fold_view [of battery clf "[0..<length (cluster_heads s)]" "(s, [])"]
  by (simp add: process_cluster_data_def)

text \<open>Up to the energy update a cycle changes no view that ignores the dynamic fields.\<close>

lemma before_energy_view:
  "ignores_dynamic g \<Longrightarrow>
   map g (sensor_nodes (fst (process_cluster_data clf (collect_real_time_data d
            (simulate_intrusions d (fault_pass d (s\<lparr>cycle_count := cycle_count s + 1\<rparr>)))))))
     = map g (sensor_nodes s)"
  by (simp add: process_cluster_data_view collect_view fault_pass_view)

lemma update_node_energy_view:
  "(\<And>n b. g (n\<lparr>battery := b\<rparr>) = g n) \<Longrightarrow> g (update_node_energy cfg u n) = g n"
  by (simp add: update_node_energy_def Let_def)

lemma update_energy_view:
  "(\<And>n b. g (n\<lparr>battery := b\<rparr>) = g n) \<Longrightarrow>
   map g (sensor_nodes (update_energy_consumption d s)) = map g (sensor_nodes s)"
  by (simp add: update_energy_consumption_def update_node_energy_view
        map_indexed [of g "\<lambda>i. update_node_energy (sim_config s) (d_recharge d i)"])

lemma cycle_nodes:
  "sensor_nodes (fst (run_realtime_cycle clf d s))
     = sensor_nodes (update_energy_consumption d
         (fst (process_cluster_data clf (collect_real_time_data d
            (simulate_intrusions d (fault_pass d (s\<lparr>cycle_count := cycle_count s + 1\<rparr>)))))))"
  by (simp add: run_realtime_cycle_def Let_def)

lemma cycle_config [simp]: "sim_config (fst (run_realtime_cycle clf d s)) = sim_config s"
  by (simp add: run_realtime_cycle_def Let_def)

lemma cycle_view:
  "ignores_dynamic g \<Longrightarrow> (\<And>n b. g (n\<lparr>battery := b\<rparr>) = g n) \<Longrightarrow>
   map g (sensor_nodes (fst (run_realtime_cycle clf d s))) = map g (sensor_nodes s)"
  by (simp only: cycle_nodes update_energy_view before_energy_view)

lemma run_view:
  "ignores_dynamic g \<Longrightarrow> (\<And>n b. g (n\<lparr>battery := b\<rparr>) = g n) \<Longrightarrow>
   map g (sensor_nodes (run_perfect_simulation clf ds s)) = map g (sensor_nodes s)"
  by (induction ds arbitrary: s) (simp_all add: run_perfect_simulation_def cycle_view)

lemma run_config [simp]: "sim_config (run_perfect_simulation clf ds s) = sim_config s"
  by (induction ds arbitrary: s) (simp_all add: run_perfect_simulation_def)

lemma node_consumption_nonneg: "0 \<le> node_consumption n"
  by (simp add: node_consumption_def)

lemma update_node_energy_range:
  assumes "0 \<le> solar_recharge_amount cfg" and "0 \<le> battery n" and "battery n \<le> 100"
  shows "0 \<le> battery (update_node_energy cfg u n) \<and> battery (update_node_energy cfg u n) \<le> 100"
  using assms node_consumption_nonneg [of n]
  by (auto simp add: update_node_energy_def Let_def)

lemma set_indexed_map:
  "x \<in> set (map (\<lambda>(i, n). f i n) (indexed xs)) \<Longrightarrow> \<exists>i n. n \<in> set xs \<and> x = f i n"
  by (auto simp add: indexed_def dest: set_zip_rightD)

lemma batteries_ok_map:
  assumes e: "map battery nodes' = map battery nodes" and ok: "batteries_ok nodes"
  shows "batteries_ok nodes'"
proof -
  have "set (map battery nodes') = set (map battery nodes)" by (simp only: e)
  then have img: "battery ` set nodes' = battery ` set nodes" by simp
  show ?thesis
    unfolding batteries_ok_def
  proof
    fix n
    assume "n \<in> set nodes'"
    then have "battery n \<in> battery ` set nodes" using img by blast
    then obtain m where "m \<in> set nodes" and "battery n = battery m" by blast
    with ok show "0 \<le> battery n \<and> battery n \<le> 100" by (simp add: batteries_ok_def)
  qed
qed

lemma update_energy_batteries:
  assumes "0 \<le> solar_recharge_amount (sim_config s)" and "batteries_ok (sensor_nodes s)"
  shows "batteries_ok (sensor_nodes (update_energy_consumption d s))"
  unfolding batteries_ok_def
proof
  fix x
  assume "x \<in> set (sensor_nodes (update_energy_consumption d s))"
  then obtain i n where n: "n \<in> set (sensor_nodes s)"
    and x: "x = update_node_energy (sim_config s) (d_recharge d i) n"
    using set_indexed_map [of x "\<lambda>i. update_node_energy (sim_config s) (d_recharge d i)"
            "sensor_nodes s"]
    by (auto simp add: update_energy_consumption_def)
  from n assms(2) have "0 \<le> battery n" "battery n \<le> 100" by (simp_all add: batteries_ok_def)
  with assms(1) x show "0 \<le> battery x \<and> battery x \<le> 100"
    by (simp add: update_node_energy_range)
qed

lemma cycle_batteries:
  assumes "0 \<le> solar_recharge_amount (sim_config s)" and "batteries_ok (sensor_nodes s)"
  shows "batteries_ok (sensor_nodes (fst (run_realtime_cycle clf d s)))"
proof -
  let ?s4 = "fst (process_cluster_data clf (collect_real_time_data d
            (simulate_intrusions d (fault_pass d (s\<lparr>cycle_count := cycle_count s + 1\<rparr>)))))"
  have "map battery (sensor_nodes ?s4) = map battery (sensor_nodes s)"
    by (rule before_energy_view) simp
  then have ok: "batteries_ok (sensor_nodes ?s4)" using assms(2) by (rule batteries_ok_map)
  have cfg: "sim_config ?s4 = sim_config s" by simp
  show ?thesis
    unfolding cycle_nodes
    by (rule update_energy_batteries) (simp_all only: cfg assms(1) ok)
qed

lemma run_batteries:
  "0 \<le> solar_recharge_amount (sim_config s) \<Longrightarrow> batteries_ok (sensor_nodes s) \<Longrightarrow>
   batteries_ok (sensor_nodes (run_perfect_simulation clf ds s))"
proof (induction ds arbitrary: s)
  case Nil
  then show ?case by (simp add: run_perfect_simulation_def)
next
  case (Cons d ds)
  from Cons.prems have "batteries_ok (sensor_nodes (fst (run_realtime_cycle clf d s)))"
    by (intro cycle_batteries)
  moreover have "0 \<le> solar_recharge_amount (sim_config (fst (run_realtime_cycle clf d s)))"
    using Cons.prems(1) by simp
  ultimately have "batteries_ok (sensor_nodes
      (run_perfect_simulation clf ds (fst (run_realtime_cycle clf d s))))"
    by (intro Cons.IH)
  then show ?case by (simp add: run_perfect_simulation_def)
qed

text \<open>
  Claim C6. With a recharge amount that is not negative, as the configuration's 12 is,
  node batteries that lie in [0, 100] stay there through every energy update, every
  cycle and every run: consumption is clamped at 0 and recharge at 100. A cluster head's
  battery never drops below 0 in its energy update and stays at most 100 when it was at
  most 100, as it is when the head is created.
\<close>

theorem battery_stays_in_range:
  assumes "0 \<le> solar_recharge_amount (sim_config s)" and "batteries_ok (sensor_nodes s)"
  shows "batteries_ok (sensor_nodes (update_energy_consumption d s))
         \<and> batteries_ok (sensor_nodes (fst (run_realtime_cycle clf d s)))
         \<and> batteries_ok (sensor_nodes (run_perfect_simulation clf ds s))
         \<and> 0 \<le> ch_battery (simulate_energy_consumption ch)
         \<and> (ch_battery ch \<le> 100 \<longrightarrow> ch_battery (simulate_energy_consumption ch) \<le> 100)
         \<and> ch_battery (ClusterHead cfg nid x y) = 100"
proof -
  have "0 \<le> ch_battery (simulate_energy_consumption ch)"
    by (simp add: simulate_energy_consumption_def Let_def)
  moreover have "ch_battery ch \<le> 100 \<longrightarrow> ch_battery (simulate_energy_consumption ch) \<le> 100"
    by (simp add: simulate_energy_consumption_def Let_def)
  moreover have "ch_battery (ClusterHead cfg nid x y) = 100" by (simp add: ClusterHead_def)
  ultimately show ?thesis
    using update_energy_batteries [OF assms] cycle_batteries [OF assms] run_batteries [OF assms]
    by blast
qed

theorem battery_stays_in_range_witness:
  "0 \<le> solar_recharge_amount (sim_config low_battery_sim)
   \<and> batteries_ok (sensor_nodes low_battery_sim)
   \<and> batteries_ok (sensor_nodes (update_energy_consumption sunny_draws low_battery_sim))
   \<and> map battery (sensor_nodes (update_energy_consumption quiet_draws low_battery_sim)) = [0]
   \<and> map battery (sensor_nodes (update_energy_consumption sunny_draws low_battery_sim)) = [12]
   \<and> map battery (sensor_nodes (update_energy_consumption sunny_draws (demo_sim 0.95 [])))
        = [100]
   \<and> batteries_ok (sensor_nodes
        (run_perfect_simulation failing_classifier [quiet_draws, sunny_draws] low_battery_sim))
   \<and> ch_battery demo_head \<le> 100
   \<and> ch_battery (simulate_energy_consumption demo_head) = 99.95"
proof -
  have a: "0 \<le> solar_recharge_amount (sim_config low_battery_sim)"
    by (simp add: low_battery_sim_def demo_defs)
  have b: "batteries_ok (sensor_nodes low_battery_sim)"
    by (simp add: low_battery_sim_def demo_defs batteries_ok_def)
  note t = battery_stays_in_range [OF a b, of sunny_draws failing_classifier
             "[quiet_draws, sunny_draws]" demo_head SIMULATION_CONFIG "''CH1''" 500 125]
  have e: "map battery (sensor_nodes (update_energy_consumption quiet_draws low_battery_sim)) = [0]
     \<and> map battery (sensor_nodes (update_energy_consumption sunny_draws low_battery_sim)) = [12]
     \<and> map battery (sensor_nodes (update_energy_consumption sunny_draws (demo_sim 0.95 [])))
        = [100]
     \<and> ch_battery demo_head \<le> 100
     \<and> ch_battery (simulate_energy_consumption demo_head) = 99.95"
    by (simp add: low_battery_sim_def sunny_draws_def cycle_defs demo_defs
          simulate_energy_consumption_def)
  from a b t e show ?thesis by blast
qed

text \<open>
  Claim C2 at its failing input. A node with battery 0.01 goes through a cycle without
  recharge: its battery is clamped to 0 and it is still active. The energy update of the
  next cycle still processes it and recharges it to 12, and it is still active.
\<close>

theorem depleted_node_stays_active:
  "map battery (sensor_nodes low_battery_sim) = [0.01]
   \<and> map battery (sensor_nodes
        (fst (run_realtime_cycle failing_classifier quiet_draws low_battery_sim))) = [0]
   \<and> map is_active (sensor_nodes
        (fst (run_realtime_cycle failing_classifier quiet_draws low_battery_sim))) = [True]
   \<and> map battery (sensor_nodes (update_energy_consumption sunny_draws
        (fst (run_realtime_cycle failing_classifier quiet_draws low_battery_sim)))) = [12]
   \<and> map is_active (sensor_nodes (update_energy_consumption sunny_draws
        (fst (run_realtime_cycle failing_classifier quiet_draws low_battery_sim)))) = [True]"
  by (simp add: low_battery_sim_def sunny_draws_def cycle_defs demo_defs engine_defs)

text \<open>No phase of a cycle ever writes \<open>is_active\<close>: over any run every node keeps the
  value it was created with.\<close>

lemma is_active_never_changes:
  "map is_active (sensor_nodes (run_perfect_simulation clf ds s)) = map is_active (sensor_nodes s)"
  by (rule run_view) simp_all

section \<open>Properties of reading synthesis\<close>

lemma activate_all_fold: "activate_all s = fold activate_step (current_intrusions s) s"
  by (simp add: activate_all_def activate_step_def [abs_def])

lemma activate_nearby_position:
  "position (intrusion_objects (activate_nearby_sensors px ty s) ! a)
     = position (intrusion_objects s ! a)"
proof (cases "find_affected (intrusion_objects s) px ty (current_intrusions s)")
  case None
  then show ?thesis by (simp add: activate_nearby_sensors_def Let_def)
next
  case (Some b)
  show ?thesis
  proof (cases "b < length (intrusion_objects s)")
    case True
    then show ?thesis
      using Some by (simp add: activate_nearby_sensors_def Let_def nth_list_update)
  next
    case False
    then have "length (intrusion_objects s) \<le> b" by simp
    then show ?thesis
      using Some by (simp add: activate_nearby_sensors_def Let_def list_update_beyond)
  qed
qed

lemma activate_step_frame [simp]:
  "sim_config (activate_step a s) = sim_config s"
  "length (sensor_nodes (activate_step a s)) = length (sensor_nodes s)"
  "position (intrusion_objects (activate_step a s) ! b) = position (intrusion_objects s ! b)"
  by (simp_all add: activate_step_def activate_nearby_position)
     (simp add: activate_nearby_sensors_def Let_def)

lemma activate_step_node:
  "i < length (sensor_nodes s) \<Longrightarrow>
   sensor_nodes (activate_step a s) ! i
     = activate_node (sim_config s) (position (intrusion_objects s ! a))
         (itype (intrusion_objects s ! a)) (sensor_nodes s ! i)"
  by (simp add: activate_step_def activate_nearby_sensors_def Let_def)

lemma activate_node_static [simp]:
  "node_x (activate_node cfg px ty n) = node_x n"
  "is_active (activate_node cfg px ty n) = is_active n"
  by (simp_all add: activate_node_def)

lemma in_activation_range_cong:
  "node_x n' = node_x n \<Longrightarrow> in_activation_range cfg px n' = in_activation_range cfg px n"
  by (simp add: in_activation_range_def)

text \<open>A node that no listed intrusion reaches is left alone by the activation loop.\<close>

lemma fold_activate_unreached:
  "i < length (sensor_nodes s) \<Longrightarrow>
   \<forall>a \<in> set as. \<not> (in_activation_range (sim_config s) (position (intrusion_objects s ! a))
                         (sensor_nodes s ! i) \<and> is_active (sensor_nodes s ! i)) \<Longrightarrow>
   sensor_nodes (fold activate_step as s) ! i = sensor_nodes s ! i"
proof (induction as arbitrary: s)
  case Nil
  show ?case by simp
next
  case (Cons a as)
  from Cons.prems(2)
  have na: "\<not> (in_activation_range (sim_config s) (position (intrusion_objects s ! a))
                   (sensor_nodes s ! i) \<and> is_active (sensor_nodes s ! i))"
    and rest: "\<forall>b \<in> set as.
                 \<not> (in_activation_range (sim_config s) (position (intrusion_objects s ! b))
                        (sensor_nodes s ! i) \<and> is_active (sensor_nodes s ! i))"
    by simp_all
  have same: "sensor_nodes (activate_step a s) ! i = sensor_nodes s ! i"
    using na by (simp only: activate_step_node [OF Cons.prems(1)] activate_node_def if_False)
  have i': "i < length (sensor_nodes (activate_step a s))" using Cons.prems(1) by simp
  have rest': "\<forall>b \<in> set as.
                 \<not> (in_activation_range (sim_config (activate_step a s))
                        (position (intrusion_objects (activate_step a s) ! b))
                        (sensor_nodes (activate_step a s) ! i)
                      \<and> is_active (sensor_nodes (activate_step a s) ! i))"
    using rest by (simp only: same activate_step_frame)
  have "sensor_nodes (fold activate_step as (activate_step a s)) ! i
          = sensor_nodes (activate_step a s) ! i"
    by (rule Cons.IH [OF i' rest'])
  with same show ?case by simp
qed

lemma activate_node_flagged:
  "flagged n \<Longrightarrow> flagged (activate_node cfg px ty n)"
  "in_activation_range cfg px n \<Longrightarrow> is_active n \<Longrightarrow> flagged (activate_node cfg px ty n)"
  by (simp_all add: flagged_def activate_node_def activation_pattern_def Let_def)

lemma fold_activate_flagged:
  "i < length (sensor_nodes s) \<Longrightarrow> flagged (sensor_nodes s ! i) \<Longrightarrow>
   flagged (sensor_nodes (fold activate_step as s) ! i)"
proof (induction as arbitrary: s)
  case Nil
  then show ?case by simp
next
  case (Cons a as)
  then have "flagged (sensor_nodes (activate_step a s) ! i)"
    by (simp add: activate_step_node activate_node_flagged)
  with Cons.prems(1) show ?case by (simp add: Cons.IH)
qed

text \<open>A node that some listed intrusion reaches reports an intrusion afterwards.\<close>

lemma fold_activate_reached:
  "i < length (sensor_nodes s) \<Longrightarrow> a \<in> set as \<Longrightarrow>
   in_activation_range (sim_config s) (position (intrusion_objects s ! a)) (sensor_nodes s ! i) \<Longrightarrow>
   is_active (sensor_nodes s ! i) \<Longrightarrow>
   flagged (sensor_nodes (fold activate_step as s) ! i)"
proof (induction as arbitrary: s)
  case Nil
  then show ?case by simp
next
  case (Cons b bs)
  show ?case
  proof (cases "a = b")
    case True
    with Cons.prems have "flagged (sensor_nodes (activate_step b s) ! i)"
      by (simp add: activate_step_node activate_node_flagged)
    with Cons.prems(1) show ?thesis by (simp add: fold_activate_flagged)
  next
    case False
    with Cons.prems have in_bs: "a \<in> set bs" by simp
    have "flagged (sensor_nodes (fold activate_step bs (activate_step b s)) ! i)"
      using Cons.prems in_bs
      by (intro Cons.IH)
         (simp_all add: activate_step_node in_activation_range_cong [of "activate_node _ _ _ _"])
    then show ?thesis by simp
  qed
qed

lemma nth_indexed_map:
  "i < length xs \<Longrightarrow> map (\<lambda>(i, n). f i n) (indexed xs) ! i = f i (xs ! i)"
  by (simp add: indexed_def)

lemma collect_node_readings [simp]:
  "sensor_readings (collect_node d i n) = sensor_readings n"
  by (simp add: collect_node_def update_sensor_history_def Let_def)

lemma fold_activate_length [simp]:
  "length (sensor_nodes (fold activate_step as s)) = length (sensor_nodes s)"
  by (induction as arbitrary: s) simp_all

lemma collect_nodes_nth:
  "i < length (sensor_nodes s) \<Longrightarrow>
   sensor_readings (sensor_nodes (collect_real_time_data d s) ! i)
     = sensor_readings (sensor_nodes
         (fold activate_step (current_intrusions s)
            (s\<lparr>sensor_nodes := reset_flags (sensor_nodes s)\<rparr>)) ! i)"
  by (simp add: collect_real_time_data_def Let_def nth_indexed_map activate_all_fold
        reset_flags_def)

text \<open>
  Claim C3, as amended. Data collection first resets every node's \<open>intrusion_detected\<close>
  flag, then runs the activation for every current intrusion, then collects. A node that
  is inactive or outside the activation radius of every current intrusion keeps the
  reading vector it had before the pass, with its flag false; that vector is the ambient
  one only as long as nothing has written the readings since deployment. An active node
  within the radius of some current intrusion reports motion with its flag set again.
\<close>

theorem readings_outside_every_radius_kept:
  assumes "i < length (sensor_nodes s)"
  shows "((\<forall>a \<in> set (current_intrusions s).
             \<not> (in_activation_range (sim_config s) (position (intrusion_objects s ! a))
                    (sensor_nodes s ! i) \<and> is_active (sensor_nodes s ! i)))
          \<longrightarrow> sensor_readings (sensor_nodes (collect_real_time_data d s) ! i)
               = (sensor_readings (sensor_nodes s ! i))\<lparr>intrusion_detected := False\<rparr>)
         \<and> ((\<exists>a \<in> set (current_intrusions s).
                in_activation_range (sim_config s) (position (intrusion_objects s ! a))
                    (sensor_nodes s ! i) \<and> is_active (sensor_nodes s ! i))
          \<longrightarrow> intrusion_detected (sensor_readings (sensor_nodes (collect_real_time_data d s) ! i))
              \<and> pir (sensor_readings (sensor_nodes (collect_real_time_data d s) ! i)) = 1)
         \<and> (\<forall>n \<in> set (reset_flags (sensor_nodes s)). \<not> intrusion_detected (sensor_readings n))
         \<and> collect_real_time_data d s
             = (activate_all (s\<lparr>sensor_nodes := reset_flags (sensor_nodes s)\<rparr>))
                 \<lparr>sensor_nodes := map (\<lambda>(i, n). collect_node d i n)
                    (indexed (sensor_nodes
                       (activate_all (s\<lparr>sensor_nodes := reset_flags (sensor_nodes s)\<rparr>))))\<rparr>"
proof -
  let ?s1 = "s\<lparr>sensor_nodes := reset_flags (sensor_nodes s)\<rparr>"
  have i1: "i < length (sensor_nodes ?s1)" using assms by (simp add: reset_flags_def)
  have n1: "sensor_nodes ?s1 ! i
              = (sensor_nodes s ! i)\<lparr>sensor_readings :=
                   (sensor_readings (sensor_nodes s ! i))\<lparr>intrusion_detected := False\<rparr>\<rparr>"
    using assms by (simp add: reset_flags_def)
  have r1: "\<And>px. in_activation_range (sim_config ?s1) px (sensor_nodes ?s1 ! i)
               = in_activation_range (sim_config s) px (sensor_nodes s ! i)"
    by (simp only: n1 in_activation_range_def) simp
  have a1: "is_active (sensor_nodes ?s1 ! i) = is_active (sensor_nodes s ! i)"
    by (simp only: n1) simp
  have A: "(\<forall>a \<in> set (current_intrusions s).
             \<not> (in_activation_range (sim_config s) (position (intrusion_objects s ! a))
                    (sensor_nodes s ! i) \<and> is_active (sensor_nodes s ! i)))
          \<longrightarrow> sensor_readings (sensor_nodes (collect_real_time_data d s) ! i)
               = (sensor_readings (sensor_nodes s ! i))\<lparr>intrusion_detected := False\<rparr>"
  proof
    assume h: "\<forall>a \<in> set (current_intrusions s).
             \<not> (in_activation_range (sim_config s) (position (intrusion_objects s ! a))
                    (sensor_nodes s ! i) \<and> is_active (sensor_nodes s ! i))"
    then have h1: "\<forall>a \<in> set (current_intrusions s).
             \<not> (in_activation_range (sim_config ?s1) (position (intrusion_objects ?s1 ! a))
                    (sensor_nodes ?s1 ! i) \<and> is_active (sensor_nodes ?s1 ! i))"
      by (simp only: r1 a1) simp
    have "sensor_nodes (fold activate_step (current_intrusions s) ?s1) ! i = sensor_nodes ?s1 ! i"
      by (rule fold_activate_unreached [OF i1 h1])
    then show "sensor_readings (sensor_nodes (collect_real_time_data d s) ! i)
               = (sensor_readings (sensor_nodes s ! i))\<lparr>intrusion_detected := False\<rparr>"
      using assms by (simp add: collect_nodes_nth [OF assms] reset_flags_def)
  qed
  have B: "(\<exists>a \<in> set (current_intrusions s).
                in_activation_range (sim_config s) (position (intrusion_objects s ! a))
                    (sensor_nodes s ! i) \<and> is_active (sensor_nodes s ! i))
          \<longrightarrow> intrusion_detected (sensor_readings (sensor_nodes (collect_real_time_data d s) ! i))
              \<and> pir (sensor_readings (sensor_nodes (collect_real_time_data d s) ! i)) = 1"
  proof
    assume "\<exists>a \<in> set (current_intrusions s).
                in_activation_range (sim_config s) (position (intrusion_objects s ! a))
                    (sensor_nodes s ! i) \<and> is_active (sensor_nodes s ! i)"
    then obtain a where a: "a \<in> set (current_intrusions s)"
      and r: "in_activation_range (sim_config s) (position (intrusion_objects s ! a))
                    (sensor_nodes s ! i)"
      and act: "is_active (sensor_nodes s ! i)" by blast
    have r': "in_activation_range (sim_config ?s1) (position (intrusion_objects ?s1 ! a))
                    (sensor_nodes ?s1 ! i)"
      using r by (simp only: r1) simp
    have act': "is_active (sensor_nodes ?s1 ! i)" using act by (simp only: a1)
    have "flagged (sensor_nodes (fold activate_step (current_intrusions s) ?s1) ! i)"
      by (rule fold_activate_reached [OF i1 a r' act'])
    then show "intrusion_detected (sensor_readings (sensor_nodes (collect_real_time_data d s) ! i))
              \<and> pir (sensor_readings (sensor_nodes (collect_real_time_data d s) ! i)) = 1"
      by (simp add: collect_nodes_nth [OF assms] flagged_def)
  qed
  have C: "\<forall>n \<in> set (reset_flags (sensor_nodes s)). \<not> intrusion_detected (sensor_readings n)"
    by (auto simp add: reset_flags_def)
  have D: "collect_real_time_data d s
             = (activate_all ?s1)
                 \<lparr>sensor_nodes := map (\<lambda>(i, n). collect_node d i n)
                    (indexed (sensor_nodes (activate_all ?s1)))\<rparr>"
    by (simp add: collect_real_time_data_def Let_def)
  from A B C D show ?thesis by blast
qed

theorem readings_outside_every_radius_kept_witness:
  "0 < length (sensor_nodes (demo_sim 0.95 []))
   \<and> current_intrusions (demo_sim 0.95 []) = []
   \<and> sensor_readings (sensor_nodes (collect_real_time_data quiet_draws (demo_sim 0.95 [])) ! 0)
       = \<lparr>pir = 0, vibration = 0, thermal = 25, acoustic = 0, signal_strength = 0.75,
           intrusion_detected = False\<rparr>
   \<and> 0 < length (sensor_nodes late_sim)
   \<and> current_intrusions late_sim = [0]
   \<and> in_activation_range (sim_config late_sim) (position (intrusion_objects late_sim ! 0))
        (sensor_nodes late_sim ! 0)
   \<and> is_active (sensor_nodes late_sim ! 0)
   \<and> intrusion_detected
        (sensor_readings (sensor_nodes (collect_real_time_data quiet_draws late_sim) ! 0))
   \<and> pir (sensor_readings (sensor_nodes (collect_real_time_data quiet_draws late_sim) ! 0)) = 1"
proof -
  have a: "0 < length (sensor_nodes (demo_sim 0.95 []))" by (simp add: demo_sim_def)
  have b: "0 < length (sensor_nodes late_sim)" by (simp add: late_sim_def demo_sim_def)
  have c: "current_intrusions (demo_sim 0.95 []) = []" by (simp add: demo_sim_def)
  have d: "current_intrusions late_sim = [0]" by (simp add: late_sim_def demo_sim_def)
  have e: "in_activation_range (sim_config late_sim) (position (intrusion_objects late_sim ! 0))
             (sensor_nodes late_sim ! 0) \<and> is_active (sensor_nodes late_sim ! 0)"
    by (simp add: late_sim_def demo_defs in_activation_range_def)
  have f: "(sensor_readings (sensor_nodes (demo_sim 0.95 []) ! 0))\<lparr>intrusion_detected := False\<rparr>
             = \<lparr>pir = 0, vibration = 0, thermal = 25, acoustic = 0, signal_strength = 0.75,
                 intrusion_detected = False\<rparr>"
    by (simp add: demo_defs)
  note t1 = readings_outside_every_radius_kept [OF a, of quiet_draws]
  note t2 = readings_outside_every_radius_kept [OF b, of quiet_draws]
  have p1: "\<forall>a \<in> set (current_intrusions (demo_sim 0.95 [])).
              \<not> (in_activation_range (sim_config (demo_sim 0.95 []))
                     (position (intrusion_objects (demo_sim 0.95 []) ! a))
                     (sensor_nodes (demo_sim 0.95 []) ! 0)
                   \<and> is_active (sensor_nodes (demo_sim 0.95 []) ! 0))"
    by (simp only: c) simp
  from t1 [THEN conjunct1] p1
  have "sensor_readings (sensor_nodes (collect_real_time_data quiet_draws (demo_sim 0.95 [])) ! 0)
          = (sensor_readings (sensor_nodes (demo_sim 0.95 []) ! 0))\<lparr>intrusion_detected := False\<rparr>"
    by (rule mp)
  then have 1: "sensor_readings
        (sensor_nodes (collect_real_time_data quiet_draws (demo_sim 0.95 [])) ! 0)
       = \<lparr>pir = 0, vibration = 0, thermal = 25, acoustic = 0, signal_strength = 0.75,
           intrusion_detected = False\<rparr>"
    by (simp only: f)
  have p2: "\<exists>a \<in> set (current_intrusions late_sim).
              in_activation_range (sim_config late_sim) (position (intrusion_objects late_sim ! a))
                (sensor_nodes late_sim ! 0) \<and> is_active (sensor_nodes late_sim ! 0)"
    using e by (simp only: d) simp
  from t2 [THEN conjunct2, THEN conjunct1] p2
  have 2: "intrusion_detected
        (sensor_readings (sensor_nodes (collect_real_time_data quiet_draws late_sim) ! 0))
     \<and> pir (sensor_readings (sensor_nodes (collect_real_time_data quiet_draws late_sim) ! 0)) = 1"
    by (rule mp)
  from a b c d e 1 2 show ?thesis by blast
qed

text \<open>
  The vehicle intrusion at position 480 is active in the cycle at time 42 and forces the
  readings of the node at x = 500. In the next cycle it has expired, no intrusion is
  active, the node is active and outside every radius, and its readings are still the
  vehicle pattern (vibration 1, acoustic 1, thermal 55), not the ambient one with which
  it was deployed (vibration 0, acoustic 0, thermal 25).
\<close>

theorem stale_readings_after_expiry:
  "observe late_sim
     = ([0], [True],
        [\<lparr>pir = 0, vibration = 0, thermal = 25, acoustic = 0, signal_strength = 0.75,
          intrusion_detected = False\<rparr>])
   \<and> observe (fst (run_realtime_cycle failing_classifier quiet_draws late_sim))
     = ([0], [True],
        [\<lparr>pir = 1, vibration = 1, thermal = 55, acoustic = 1, signal_strength = 0.75,
          intrusion_detected = True\<rparr>])
   \<and> observe (fst (run_realtime_cycle failing_classifier quiet_draws
        (fst (run_realtime_cycle failing_classifier quiet_draws late_sim))))
     = ([], [True],
        [\<lparr>pir = 1, vibration = 1, thermal = 55, acoustic = 1, signal_strength = 0.75,
          intrusion_detected = False\<rparr>])"
  by (simp add: observe_def late_sim_def cycle_defs demo_defs engine_defs)

section \<open>Properties of cluster assignment and aggregation\<close>

lemma find_nearest_step:
  "find_nearest rng node (ch # chs) j m r =
     (if below_min (node_distance node ch) m \<and> node_distance node ch \<le> rng
      then find_nearest rng node chs (Suc j) (Some (node_distance node ch)) (Some j)
      else find_nearest rng node chs (Suc j) m r)"
  by (simp add: Let_def below_min_def node_distance_def)

lemma find_nearest_general:
  "(find_nearest rng node chs j m r = r
      \<and> (\<forall>c \<in> set chs. \<not> (below_min (node_distance node c) m \<and> node_distance node c \<le> rng)))
   \<or> (\<exists>k. find_nearest rng node chs j m r = Some (j + k)
          \<and> below_min (node_distance node (chs ! k)) m
          \<and> nearest_in_range rng node chs k)"
proof (induction chs arbitrary: j m r)
  case Nil
  show ?case by simp
next
  case (Cons c cs)
  let ?d = "node_distance node c"
  show ?case
  proof (cases "below_min ?d m \<and> ?d \<le> rng")
    case True
    then have step: "find_nearest rng node (c # cs) j m r
                       = find_nearest rng node cs (Suc j) (Some ?d) (Some j)"
      by (subst find_nearest_step) (simp del: find_nearest.simps)
    from Cons.IH [of "Suc j" "Some ?d" "Some j"]
    show ?thesis
    proof
      assume a: "find_nearest rng node cs (Suc j) (Some ?d) (Some j) = Some j
        \<and> (\<forall>c' \<in> set cs. \<not> (below_min (node_distance node c') (Some ?d)
                                \<and> node_distance node c' \<le> rng))"
      have far: "?d \<le> node_distance node (cs ! k)"
        if "k < length cs" and "node_distance node (cs ! k) \<le> rng" for k
      proof -
        from that(1) have "cs ! k \<in> set cs" by simp
        with a that(2) have "\<not> below_min (node_distance node (cs ! k)) (Some ?d)" by blast
        then show ?thesis by (simp add: below_min_def)
      qed
      have "nearest_in_range rng node (c # cs) 0"
        unfolding nearest_in_range_def
        using True far by (auto simp add: nth_Cons split: nat.splits)
      with a True step show ?thesis
        by (intro disjI2 exI [of _ 0]) simp
    next
      assume "\<exists>k. find_nearest rng node cs (Suc j) (Some ?d) (Some j) = Some (Suc j + k)
          \<and> below_min (node_distance node (cs ! k)) (Some ?d)
          \<and> nearest_in_range rng node cs k"
      then obtain k where k: "find_nearest rng node cs (Suc j) (Some ?d) (Some j) = Some (Suc j + k)"
        and lt: "node_distance node (cs ! k) < ?d"
        and nr: "nearest_in_range rng node cs k"
        by (auto simp add: below_min_def)
      have bm: "below_min (node_distance node (cs ! k)) m"
        using True lt by (auto simp add: below_min_def split: option.splits)
      have "nearest_in_range rng node (c # cs) (Suc k)"
        using nr lt unfolding nearest_in_range_def
        by (auto simp add: nth_Cons less_Suc_eq_0_disj split: nat.splits)
      with k bm step show ?thesis
        by (intro disjI2 exI [of _ "Suc k"]) simp
    qed
  next
    case False
    then have step: "find_nearest rng node (c # cs) j m r
                       = find_nearest rng node cs (Suc j) m r"
      by (subst find_nearest_step) (auto simp del: find_nearest.simps)
    from Cons.IH [of "Suc j" m r]
    show ?thesis
    proof
      assume "find_nearest rng node cs (Suc j) m r = r
        \<and> (\<forall>c' \<in> set cs. \<not> (below_min (node_distance node c') m
                                \<and> node_distance node c' \<le> rng))"
      with False step show ?thesis by auto
    next
      assume "\<exists>k. find_nearest rng node cs (Suc j) m r = Some (Suc j + k)
          \<and> below_min (node_distance node (cs ! k)) m
          \<and> nearest_in_range rng node cs k"
      then obtain k where k: "find_nearest rng node cs (Suc j) m r = Some (Suc j + k)"
        and bm: "below_min (node_distance node (cs ! k)) m"
        and nr: "nearest_in_range rng node cs k"
        by auto
      from False bm have lt: "?d \<le> rng \<Longrightarrow> node_distance node (cs ! k) < ?d"
        by (auto simp add: below_min_def split: option.splits)
      have "nearest_in_range rng node (c # cs) (Suc k)"
        using nr lt unfolding nearest_in_range_def
        by (auto simp add: nth_Cons less_Suc_eq_0_disj split: nat.splits)
      with k bm step show ?thesis
        by (intro disjI2 exI [of _ "Suc k"]) simp
    qed
  qed
qed

text \<open>The outcome of the search that \<open>_assign_clusters\<close> makes for one node.\<close>

lemma find_nearest_spec:
  "(find_nearest rng node chs 0 None None = None
      \<and> (\<forall>c \<in> set chs. \<not> node_distance node c \<le> rng))
   \<or> (\<exists>j. find_nearest rng node chs 0 None None = Some j \<and> nearest_in_range rng node chs j)"
  using find_nearest_general [of rng node chs 0 None None]
  by (auto simp add: below_min_def)

lemma find_nearest_place:
  "map head_place chs' = map head_place chs \<Longrightarrow>
   find_nearest rng node chs' j m r = find_nearest rng node chs j m r"
proof (induction chs arbitrary: chs' j m r)
  case Nil
  then show ?case by simp
next
  case (Cons c cs)
  then obtain c' cs' where c': "chs' = c' # cs'" and p: "head_place c' = head_place c"
    and rest: "map head_place cs' = map head_place cs"
    by (cases chs') auto
  from p have d: "node_distance node c' = node_distance node c"
    by (simp add: head_place_def node_distance_def)
  show ?case
    by (simp only: c' find_nearest_step d Cons.IH [OF rest])
qed

lemma head_place_nth:
  "map head_place chs' = map head_place chs \<Longrightarrow> j < length chs \<Longrightarrow>
   ch_node_id (chs' ! j) = ch_node_id (chs ! j)"
proof -
  assume e: "map head_place chs' = map head_place chs" and j: "j < length chs"
  from e have "length chs' = length chs" by (metis length_map)
  with e j have "head_place (chs' ! j) = head_place (chs ! j)" by (metis nth_map)
  then show ?thesis by (simp add: head_place_def)
qed

lemma find_nearest_bound:
  "find_nearest rng node chs 0 None None = Some j \<Longrightarrow> j < length chs"
  using find_nearest_spec [of rng node chs] by (auto simp add: nearest_in_range_def)

lemma assigned_place:
  "map head_place chs' = map head_place chs \<Longrightarrow> assigned rng chs' node = assigned rng chs node"
proof -
  assume e: "map head_place chs' = map head_place chs"
  have f: "find_nearest rng node chs' 0 None None = find_nearest rng node chs 0 None None"
    by (rule find_nearest_place [OF e])
  show ?thesis
  proof (cases "find_nearest rng node chs 0 None None")
    case None
    with f show ?thesis by (simp add: assigned_def)
  next
    case (Some j)
    then have "j < length chs" by (rule find_nearest_bound)
    with e have "ch_node_id (chs' ! j) = ch_node_id (chs ! j)" by (rule head_place_nth)
    with f Some show ?thesis by (simp add: assigned_def)
  qed
qed

lemma assign_loop_spec:
  "members_below i chs \<Longrightarrow>
   fst (assign_loop rng i nodes chs) = map (assigned rng chs) nodes
   \<and> map head_place (snd (assign_loop rng i nodes chs)) = map head_place chs"
proof (induction nodes arbitrary: i chs)
  case Nil
  show ?case by simp
next
  case (Cons node nodes)
  show ?case
  proof (cases "find_nearest rng node chs 0 None None")
    case None
    from Cons.prems have mb: "members_below (Suc i) chs"
      by (auto simp add: members_below_def less_Suc_eq)
    from Cons.IH [OF mb] None show ?thesis
      by (simp add: Let_def assigned_def)
  next
    case (Some j)
    then have j: "j < length chs" by (rule find_nearest_bound)
    then have "chs ! j \<in> set chs" by simp
    with Cons.prems have fresh: "i \<notin> set (cluster_members (chs ! j))"
      by (auto simp add: members_below_def)
    let ?ch' = "(chs ! j)\<lparr>cluster_members := cluster_members (chs ! j) @ [i]\<rparr>"
    let ?chs' = "chs[j := ?ch']"
    have m: "add_cluster_member (chs ! j) i node
               = (?ch', node\<lparr>cluster_head_id := Some (ch_node_id (chs ! j))\<rparr>)"
      using fresh by (simp add: add_cluster_member_def)
    have place: "map head_place ?chs' = map head_place chs"
      using j by (simp add: map_update head_place_def list_update_same_conv)
    have mb: "members_below (Suc i) ?chs'"
      unfolding members_below_def
    proof (intro ballI)
      fix ch k
      assume ch: "ch \<in> set ?chs'" and k: "k \<in> set (cluster_members ch)"
      from ch have "ch = ?ch' \<or> ch \<in> set chs"
        using set_update_subset_insert [of chs j ?ch'] by auto
      then show "k < Suc i"
      proof
        assume "ch = ?ch'"
        with k have "k = i \<or> k \<in> set (cluster_members (chs ! j))" by auto
        with Cons.prems \<open>chs ! j \<in> set chs\<close> show ?thesis
          by (auto simp add: members_below_def less_Suc_eq)
      next
        assume "ch \<in> set chs"
        with k Cons.prems show ?thesis by (auto simp add: members_below_def less_Suc_eq)
      qed
    qed
    from Cons.IH [OF mb]
    have ih1: "fst (assign_loop rng (Suc i) nodes ?chs') = map (assigned rng ?chs') nodes"
      and ih2: "map head_place (snd (assign_loop rng (Suc i) nodes ?chs')) = map head_place ?chs'"
      by simp_all
    have same: "map (assigned rng ?chs') nodes = map (assigned rng chs) nodes"
      by (simp add: assigned_place [OF place])
    show ?thesis
      using Some m ih1 ih2 place same
      by (simp add: Let_def assigned_def)
  qed
qed

lemma aggregate_total_motion:
  "ms \<noteq> [] \<Longrightarrow>
   aggregate_sensor_data ms ''total_motion''
     = Some (real_of_int (sum_list (map (\<lambda>n. pir (sensor_readings n)) ms)))"
  by (cases ms) (simp_all add: Let_def)

lemma collect_cluster_data_Some:
  "fst (collect_cluster_data ch nodes) = Some cd \<Longrightarrow>
   ch_is_active ch \<and> filter (is_active_member ch) nodes \<noteq> []
   \<and> sensor_summary cd = Some (aggregate_sensor_data (filter (is_active_member ch) nodes))
   \<and> total_nodes cd = length (filter (is_active_member ch) nodes)
   \<and> active_members cd = map node_id (filter (is_active_member ch) nodes)
   \<and> cluster_id cd = ch_node_id ch"
  by (auto simp add: collect_cluster_data_def Let_def split: if_splits)

lemma collect_cluster_data_None:
  "fst (collect_cluster_data ch nodes) = None \<longleftrightarrow>
   \<not> ch_is_active ch \<or> filter (is_active_member ch) nodes = []"
  by (simp add: collect_cluster_data_def Let_def)

lemma distinct_filter_le_one:
  "distinct (map f xs) \<Longrightarrow> length (filter (\<lambda>x. f x = k) xs) \<le> 1"
proof (induction xs)
  case Nil
  show ?case by simp
next
  case (Cons x xs)
  show ?case
  proof (cases "f x = k")
    case True
    with Cons.prems have "k \<notin> f ` set xs" by simp
    then have "\<forall>y \<in> set xs. f y \<noteq> k" by blast
    then have "filter (\<lambda>x. f x = k) xs = []" by (simp add: filter_empty_conv)
    with True show ?thesis by simp
  next
    case False
    with Cons show ?thesis by simp
  qed
qed

lemma length_filter_mono:
  "(\<And>x. P x \<Longrightarrow> Q x) \<Longrightarrow> length (filter P xs) \<le> length (filter Q xs)"
  by (induction xs) auto

lemma heads_of_node_le_one:
  assumes "distinct (map ch_node_id chs)"
  shows "length (filter (\<lambda>ch. is_active_member ch n) chs) \<le> (if is_active n then 1 else 0)"
proof (cases "is_active n")
  case False
  then have "filter (\<lambda>ch. is_active_member ch n) chs = []"
    by (simp add: is_active_member_def filter_empty_conv)
  with False show ?thesis by simp
next
  case True
  show ?thesis
  proof (cases "cluster_head_id n")
    case None
    then have "filter (\<lambda>ch. is_active_member ch n) chs = []"
      by (simp add: is_active_member_def filter_empty_conv)
    then show ?thesis by simp
  next
    case (Some k)
    have "length (filter (\<lambda>ch. is_active_member ch n) chs)
            \<le> length (filter (\<lambda>ch. ch_node_id ch = k) chs)"
      by (rule length_filter_mono) (simp add: is_active_member_def Some)
    also have "\<dots> \<le> 1" by (rule distinct_filter_le_one [OF assms])
    finally show ?thesis using True by simp
  qed
qed

lemma sum_list_indicator:
  "sum_list (map (\<lambda>x. if P x then 1 else 0) xs) = length (filter P xs)"
  by (induction xs) simp_all

text \<open>Over heads with distinct ids, the member counts of all snapshots together do not
  exceed the number of active nodes.\<close>

lemma members_counted_once:
  assumes "distinct (map ch_node_id chs)"
  shows "sum_list (map (\<lambda>ch. length (filter (is_active_member ch) nodes)) chs)
           \<le> length (filter is_active nodes)"
proof (induction nodes)
  case Nil
  show ?case by simp
next
  case (Cons n ns)
  have "sum_list (map (\<lambda>ch. length (filter (is_active_member ch) (n # ns))) chs)
          = sum_list (map (\<lambda>ch. (if is_active_member ch n then 1 else 0)
                                   + length (filter (is_active_member ch) ns)) chs)"
    by (rule arg_cong [where f = sum_list]) simp
  also have "\<dots> = sum_list (map (\<lambda>ch. if is_active_member ch n then 1 else 0) chs)
                   + sum_list (map (\<lambda>ch. length (filter (is_active_member ch) ns)) chs)"
    by (simp add: sum_list_addf)
  also have "\<dots> = length (filter (\<lambda>ch. is_active_member ch n) chs)
                   + sum_list (map (\<lambda>ch. length (filter (is_active_member ch) ns)) chs)"
    by (simp only: sum_list_indicator)
  also have "\<dots> \<le> (if is_active n then 1 else 0) + length (filter is_active ns)"
    using heads_of_node_le_one [OF assms, of n] Cons.IH by linarith
  also have "\<dots> = length (filter is_active (n # ns))" by simp
  finally show ?case .
qed

lemma digit_inj: "k < 10 \<Longrightarrow> l < 10 \<Longrightarrow> digit k = digit l \<Longrightarrow> k = l"
proof -
  assume k: "k < 10" and l: "l < 10" and e: "digit k = digit l"
  have d: "distinct ''0123456789''" by simp
  have "length ''0123456789'' = 10" by simp
  with k l e d show "k = l" by (simp only: digit_def nth_eq_iff_index_eq)
qed

lemma decimal_nonempty: "decimal n \<noteq> []"
  by (subst decimal.simps) simp

lemma decimal_inj: "decimal m = decimal n \<Longrightarrow> m = n"
proof (induction m arbitrary: n rule: decimal.induct)
  case (1 m)
  show ?case
  proof (cases "m < 10")
    case True
    note m = this
    show ?thesis
    proof (cases "n < 10")
      case True
      with m "1.prems" have "digit m = digit n" by (simp add: decimal.simps)
      with m True show ?thesis by (rule digit_inj)
    next
      case False
      with m "1.prems" have "[digit m] = decimal (n div 10) @ [digit (n mod 10)]"
        by (simp add: decimal.simps [of m] decimal.simps [of n])
      then have "decimal (n div 10) = []" by simp
      with decimal_nonempty show ?thesis by blast
    qed
  next
    case False
    note m = this
    show ?thesis
    proof (cases "n < 10")
      case True
      with m "1.prems" have "decimal (m div 10) @ [digit (m mod 10)] = [digit n]"
        by (simp add: decimal.simps [of m] decimal.simps [of n])
      then have "decimal (m div 10) = []" by simp
      with decimal_nonempty show ?thesis by blast
    next
      case False
      with m "1.prems"
      have "decimal (m div 10) @ [digit (m mod 10)] = decimal (n div 10) @ [digit (n mod 10)]"
        by (simp add: decimal.simps [of m] decimal.simps [of n])
      then have a: "decimal (m div 10) = decimal (n div 10)"
        and b: "digit (m mod 10) = digit (n mod 10)" by simp_all
      from "1.IH" [OF m a] have "m div 10 = n div 10" .
      moreover from b have "m mod 10 = n mod 10" by (intro digit_inj) simp_all
      ultimately show ?thesis by (metis div_mult_mod_eq)
    qed
  qed
qed

lemma deployed_head_ids_distinct: "distinct (map ch_node_id (deploy_cluster_heads cfg))"
proof -
  have "inj_on (\<lambda>i. ''CH'' @ zero_pad 1 (decimal (i + 1))) (set [0..<n_cluster_heads cfg])"
  proof (rule inj_onI)
    fix i j
    assume "''CH'' @ zero_pad 1 (decimal (i + 1)) = ''CH'' @ zero_pad 1 (decimal (j + 1))"
    then have "zero_pad 1 (decimal (i + 1)) = zero_pad 1 (decimal (j + 1))" by simp
    moreover have "\<And>n. zero_pad 1 (decimal n) = decimal n"
      using decimal_nonempty by (simp add: zero_pad_def Suc_leI)
    ultimately have "decimal (i + 1) = decimal (j + 1)" by simp
    then have "i + 1 = j + 1" by (rule decimal_inj)
    then show "i = j" by simp
  qed
  then have "distinct (map (\<lambda>i. ''CH'' @ zero_pad 1 (decimal (i + 1))) [0..<n_cluster_heads cfg])"
    by (simp add: distinct_map)
  then show ?thesis
    by (simp add: deploy_cluster_heads_def ClusterHead_def comp_def)
qed

lemma deployed_heads_fresh: "members_below 0 (deploy_cluster_heads cfg)"
  by (auto simp add: members_below_def deploy_cluster_heads_def ClusterHead_def)

lemma sqrt_le_iff_sq: "0 \<le> r \<Longrightarrow> sqrt a \<le> r \<longleftrightarrow> a \<le> r\<^sup>2"
  by (metis abs_of_nonneg real_sqrt_abs real_sqrt_le_iff)

lemma map_update_same: "f v = f (xs ! j) \<Longrightarrow> map f (xs[j := v]) = map f xs"
  by (cases "j < length xs") (simp_all add: map_update list_update_same_conv list_update_beyond)

lemma collect_cluster_data_head:
  "head_place (fst (snd (collect_cluster_data ch nodes))) = head_place ch"
  by (simp add: collect_cluster_data_def Let_def head_place_def)

lemma process_cluster_heads:
  "map head_place (cluster_heads (fst (process_cluster clf j (s, alerts))))
     = map head_place (cluster_heads s)"
proof -
  have a: "\<And>p c ch. head_place (update_prediction_history p c ch) = head_place ch"
    by (simp add: update_prediction_history_def Let_def head_place_def)
  have b: "\<And>xs (v :: cluster_head).
             head_place (xs[j := v] ! j) = (if j < length xs then head_place v else head_place (xs ! j))"
    by (simp add: list_update_beyond)
  show ?thesis
    by (simp add: process_cluster.simps Let_def map_update_same a b collect_cluster_data_head
          split: option.splits)
qed

lemma process_fold_heads:
  "map head_place (cluster_heads (fst (fold (process_cluster clf) js p)))
     = map head_place (cluster_heads (fst p))"
proof (induction js arbitrary: p)
  case Nil
  show ?case by simp
next
  case (Cons j js)
  obtain s alerts where p: "p = (s, alerts)" by (cases p)
  from Cons.IH [of "process_cluster clf j (s, alerts)"]
  show ?case by (simp add: p process_cluster_heads)
qed

text \<open>A cycle moves no cluster head and renames none, and it reassigns no node.\<close>

lemma cycle_heads:
  "map head_place (cluster_heads (fst (run_realtime_cycle clf d s)))
     = map head_place (cluster_heads s)"
proof -
  have f: "\<And>t. cluster_heads (fault_pass d t) = cluster_heads t"
    by (simp add: fault_pass_def)
  have i: "\<And>t. cluster_heads (simulate_intrusions d t) = cluster_heads t"
    by (simp add: simulate_intrusions_def Let_def)
  have a: "\<And>as t. cluster_heads (fold activate_step as t) = cluster_heads t"
  proof -
    fix as t
    show "cluster_heads (fold activate_step as t) = cluster_heads t"
      by (induction as arbitrary: t)
         (simp_all add: activate_step_def activate_nearby_sensors_def Let_def)
  qed
  have c: "\<And>t. cluster_heads (collect_real_time_data d t) = cluster_heads t"
    by (simp add: collect_real_time_data_def Let_def activate_all_fold a)
  have e: "\<And>t. cluster_heads (update_energy_consumption d t) = cluster_heads t"
    by (simp add: update_energy_consumption_def)
  show ?thesis
    by (simp add: run_realtime_cycle_def Let_def e process_cluster_data_def
          process_fold_heads c i f)
qed

lemma run_heads:
  "map head_place (cluster_heads (run_perfect_simulation clf ds s))
     = map head_place (cluster_heads s)"
  by (induction ds arbitrary: s) (simp_all add: run_perfect_simulation_def cycle_heads)

text \<open>
  Claim C9. A snapshot's \<open>total_motion\<close> is the sum of the \<open>pir\<close> readings of exactly the
  nodes that are active, carry the cluster head's id and are within its range, and its
  \<open>total_nodes\<close> is their number. A node satisfies that test for at most one of any
  heads with distinct ids, so over all clusters no node is counted twice. Deployment
  gives the heads distinct ids and gives each node the id of the nearest head within
  communication range, the first of equally near ones, or none when no head is in range;
  no cycle changes a node's assignment or a head's id or place.
\<close>

theorem total_motion_counts_each_member_once:
  assumes "distinct (map ch_node_id chs)"
  shows "(fst (collect_cluster_data ch nodes) = Some cd \<longrightarrow>
            sensor_summary cd \<noteq> None
            \<and> (\<forall>sm. sensor_summary cd = Some sm \<longrightarrow>
                  sm ''total_motion''
                    = Some (real_of_int (sum_list (map (\<lambda>n. pir (sensor_readings n))
                                                     (filter (is_active_member ch) nodes)))))
            \<and> total_nodes cd = length (filter (is_active_member ch) nodes))
         \<and> (ch_node_id ch1 \<noteq> ch_node_id ch2 \<longrightarrow>
               \<not> (is_active_member ch1 n \<and> is_active_member ch2 n))
         \<and> length (filter (\<lambda>ch. is_active_member ch n) chs) \<le> 1
         \<and> sum_list (map (\<lambda>ch. length (filter (is_active_member ch) nodes)) chs)
              \<le> length (filter is_active nodes)
         \<and> (members_below 0 chs \<longrightarrow>
               fst (assign_clusters cfg nodes chs)
                 = map (assigned (communication_range cfg) chs) nodes)
         \<and> ((find_nearest rng n chs 0 None None = None
                \<and> (\<forall>c \<in> set chs. \<not> node_distance n c \<le> rng))
             \<or> (\<exists>j. find_nearest rng n chs 0 None None = Some j
                    \<and> nearest_in_range rng n chs j))
         \<and> distinct (map ch_node_id (deploy_cluster_heads cfg))
         \<and> sensor_nodes (deploy_perfect_network cfg dd)
              = map (assigned (communication_range cfg) (deploy_cluster_heads cfg))
                  (deploy_nodes cfg dd
                     (py_int (real (n_sensor_nodes cfg) * camera_node_percentage cfg))
                     [0..<n_sensor_nodes cfg] [])
         \<and> map cluster_head_id (sensor_nodes (run_perfect_simulation clf ds s))
              = map cluster_head_id (sensor_nodes s)
         \<and> map ch_node_id (cluster_heads (run_perfect_simulation clf ds s))
              = map ch_node_id (cluster_heads s)"
proof -
  have A: "fst (collect_cluster_data ch nodes) = Some cd \<longrightarrow>
            sensor_summary cd \<noteq> None
            \<and> (\<forall>sm. sensor_summary cd = Some sm \<longrightarrow>
                  sm ''total_motion''
                    = Some (real_of_int (sum_list (map (\<lambda>n. pir (sensor_readings n))
                                                     (filter (is_active_member ch) nodes)))))
            \<and> total_nodes cd = length (filter (is_active_member ch) nodes)"
  proof
    assume "fst (collect_cluster_data ch nodes) = Some cd"
    from collect_cluster_data_Some [OF this]
    show "sensor_summary cd \<noteq> None
            \<and> (\<forall>sm. sensor_summary cd = Some sm \<longrightarrow>
                  sm ''total_motion''
                    = Some (real_of_int (sum_list (map (\<lambda>n. pir (sensor_readings n))
                                                     (filter (is_active_member ch) nodes)))))
            \<and> total_nodes cd = length (filter (is_active_member ch) nodes)"
      by (auto simp add: aggregate_total_motion)
  qed
  have B: "ch_node_id ch1 \<noteq> ch_node_id ch2 \<longrightarrow>
               \<not> (is_active_member ch1 n \<and> is_active_member ch2 n)"
    by (auto simp add: is_active_member_def)
  have C: "length (filter (\<lambda>ch. is_active_member ch n) chs) \<le> 1"
    using heads_of_node_le_one [OF assms, of n] by (simp split: if_splits)
  have D: "sum_list (map (\<lambda>ch. length (filter (is_active_member ch) nodes)) chs)
              \<le> length (filter is_active nodes)"
    by (rule members_counted_once [OF assms])
  have E: "members_below 0 chs \<longrightarrow>
               fst (assign_clusters cfg nodes chs)
                 = map (assigned (communication_range cfg) chs) nodes"
    by (simp add: assign_clusters_def assign_loop_spec)
  have F: "(find_nearest rng n chs 0 None None = None
                \<and> (\<forall>c \<in> set chs. \<not> node_distance n c \<le> rng))
             \<or> (\<exists>j. find_nearest rng n chs 0 None None = Some j
                    \<and> nearest_in_range rng n chs j)"
    by (rule find_nearest_spec)
  have G: "distinct (map ch_node_id (deploy_cluster_heads cfg))"
    by (rule deployed_head_ids_distinct)
  have H: "sensor_nodes (deploy_perfect_network cfg dd)
              = map (assigned (communication_range cfg) (deploy_cluster_heads cfg))
                  (deploy_nodes cfg dd
                     (py_int (real (n_sensor_nodes cfg) * camera_node_percentage cfg))
                     [0..<n_sensor_nodes cfg] [])"
    using assign_loop_spec [OF deployed_heads_fresh]
    by (simp add: deploy_perfect_network_def Let_def assign_clusters_def)
  have I: "map cluster_head_id (sensor_nodes (run_perfect_simulation clf ds s))
              = map cluster_head_id (sensor_nodes s)"
    by (rule run_view) simp_all
  have "map (fst \<circ> head_place) (cluster_heads (run_perfect_simulation clf ds s))
          = map (fst \<circ> head_place) (cluster_heads s)"
    using run_heads [of clf ds s] by (metis map_map)
  then have J: "map ch_node_id (cluster_heads (run_perfect_simulation clf ds s))
              = map ch_node_id (cluster_heads s)"
    by (simp add: comp_def head_place_def)
  from A B C D E F G H I J show ?thesis by blast
qed

lemma upt_0_4: "[0..<4] = [0, 1, 2, 3]"
  by (simp add: numeral_eq_Suc upt_rec)

lemma shipped_heads:
  "map head_place (deploy_cluster_heads SIMULATION_CONFIG)
     = [(''CH1'', 200, 125), (''CH2'', 400, 125), (''CH3'', 600, 125), (''CH4'', 800, 125)]"
  by (simp add: deploy_cluster_heads_def ClusterHead_def SIMULATION_CONFIG_def upt_0_4
        head_place_def zero_pad_def decimal.simps digit_def)

lemma fresh_assignment:
  "map cluster_head_id
     (fst (assign_clusters SIMULATION_CONFIG [fresh_node] (deploy_cluster_heads SIMULATION_CONFIG)))
     = [Some ''CH2'']"
  by (simp add: assign_clusters_def deploy_cluster_heads_def ClusterHead_def fresh_node_def
        SensorNode_def SIMULATION_CONFIG_def Let_def zero_pad_def decimal.simps digit_def
        add_cluster_member_def sqrt_le_iff_sq upt_0_4)

theorem total_motion_counts_each_member_once_witness:
  "distinct (map ch_node_id (deploy_cluster_heads SIMULATION_CONFIG))
   \<and> fst (collect_cluster_data demo_head [demo_node]) = Some demo_snapshot
   \<and> sensor_summary demo_snapshot = Some (aggregate_sensor_data [demo_node])
   \<and> aggregate_sensor_data [demo_node] ''total_motion'' = Some 0
   \<and> total_nodes demo_snapshot = 1
   \<and> members_below 0 (deploy_cluster_heads SIMULATION_CONFIG)
   \<and> fst (assign_clusters SIMULATION_CONFIG [fresh_node]
             (deploy_cluster_heads SIMULATION_CONFIG))
       = [assigned 200 (deploy_cluster_heads SIMULATION_CONFIG) fresh_node]
   \<and> map cluster_head_id
        (fst (assign_clusters SIMULATION_CONFIG [fresh_node]
                (deploy_cluster_heads SIMULATION_CONFIG)))
       = [Some ''CH2'']"
proof -
  have h: "distinct (map ch_node_id (deploy_cluster_heads SIMULATION_CONFIG))"
    by (simp add: deploy_cluster_heads_def ClusterHead_def SIMULATION_CONFIG_def upt_0_4
          zero_pad_def decimal.simps digit_def)
  have c: "fst (collect_cluster_data demo_head [demo_node]) = Some demo_snapshot"
    using demo_collect [of "0.95" "[]"] by (simp add: demo_sim_def)
  have s: "sensor_summary demo_snapshot = Some (aggregate_sensor_data [demo_node])"
    by (simp add: demo_snapshot_def)
  have m: "is_active_member demo_head demo_node"
    by (simp add: is_active_member_def is_in_range_def demo_defs)
  have p: "pir (sensor_readings demo_node) = 0" by (simp add: demo_defs)
  have f: "members_below 0 (deploy_cluster_heads SIMULATION_CONFIG)"
    by (rule deployed_heads_fresh)
  have r: "communication_range SIMULATION_CONFIG = 200" by (simp add: SIMULATION_CONFIG_def)
  note t = total_motion_counts_each_member_once [OF h, of demo_head "[demo_node]" demo_snapshot]
  from t [THEN conjunct1] c
  have 1: "sensor_summary demo_snapshot \<noteq> None
            \<and> (\<forall>sm. sensor_summary demo_snapshot = Some sm \<longrightarrow>
                  sm ''total_motion''
                    = Some (real_of_int (sum_list (map (\<lambda>n. pir (sensor_readings n))
                                           (filter (is_active_member demo_head) [demo_node])))))
            \<and> total_nodes demo_snapshot = length (filter (is_active_member demo_head) [demo_node])"
    by (rule mp)
  from 1 s have "aggregate_sensor_data [demo_node] ''total_motion''
                   = Some (real_of_int (sum_list (map (\<lambda>n. pir (sensor_readings n))
                                           (filter (is_active_member demo_head) [demo_node]))))"
    by blast
  then have 2: "aggregate_sensor_data [demo_node] ''total_motion'' = Some 0"
    by (simp only: filter.simps m if_True list.map sum_list.Nil sum_list.Cons p) simp
  from 1 have 3: "total_nodes demo_snapshot = 1"
    by (simp only: filter.simps m if_True) simp
  note t' = total_motion_counts_each_member_once [OF h, of _ "[fresh_node]" _ _ _ _ SIMULATION_CONFIG]
  from t' [THEN conjunct2, THEN conjunct2, THEN conjunct2, THEN conjunct2, THEN conjunct1] f
  have "fst (assign_clusters SIMULATION_CONFIG [fresh_node]
               (deploy_cluster_heads SIMULATION_CONFIG))
          = map (assigned (communication_range SIMULATION_CONFIG)
                   (deploy_cluster_heads SIMULATION_CONFIG)) [fresh_node]"
    by (rule mp)
  then have 4: "fst (assign_clusters SIMULATION_CONFIG [fresh_node]
             (deploy_cluster_heads SIMULATION_CONFIG))
       = [assigned 200 (deploy_cluster_heads SIMULATION_CONFIG) fresh_node]"
    by (simp only: r list.map)
  from h c s 2 3 f 4 fresh_assignment show ?thesis by blast
qed

section \<open>Properties of camera placement\<close>

lemma deploy_nodes_step:
  "map has_camera (deploy_nodes cfg dd cc (i # is) a)
     = fst (camera_scan ((real i / real (n_sensor_nodes cfg)) * border_length cfg)
              perfect_camera_positions a cc)
       # map has_camera (deploy_nodes cfg dd cc is
           (snd (camera_scan ((real i / real (n_sensor_nodes cfg)) * border_length cfg)
                   perfect_camera_positions a cc)))"
  by (simp add: Let_def SensorNode_def)

lemma upt_0_32:
  "[0..<32] = [0, 1, 2, 3, 4, 5, 6, 7, 8, 9, 10, 11, 12, 13, 14, 15, 16, 17, 18, 19, 20, 21,
               22, 23, 24, 25, 26, 27, 28, 29, 30, 31]"
  by (simp add: numeral_eq_Suc upt_rec)

lemma shipped_camera_flags:
  "map has_camera (deploy_nodes SIMULATION_CONFIG dd 8 [0..<32] []) =
     [False, False, False, True, False, True, False, False, False, True, True,
      True, False, False, False, False, True, False, False, False, False, True,
      True, True, False, False, False, True, False, False, False, False]"
  by (simp add: upt_0_32 deploy_nodes_step SIMULATION_CONFIG_def perfect_camera_positions_def
        del: deploy_nodes.simps(2))

lemma assigned_has_camera [simp]: "has_camera (assigned rng chs n) = has_camera n"
  by (simp add: assigned_def split: option.splits)

lemma assigned_node_x [simp]: "node_x (assigned rng chs n) = node_x n"
  by (simp add: assigned_def split: option.splits)

lemma deployed_nodes:
  "sensor_nodes (deploy_perfect_network cfg dd)
     = map (assigned (communication_range cfg) (deploy_cluster_heads cfg))
         (deploy_nodes cfg dd (py_int (real (n_sensor_nodes cfg) * camera_node_percentage cfg))
            [0..<n_sensor_nodes cfg] [])"
  using assign_loop_spec [OF deployed_heads_fresh]
  by (simp add: deploy_perfect_network_def Let_def assign_clusters_def)

lemma shipped_camera_count:
  "py_int (real (n_sensor_nodes SIMULATION_CONFIG) * camera_node_percentage SIMULATION_CONFIG) = 8"
  by (simp add: py_int_def SIMULATION_CONFIG_def)

text \<open>A node gets a camera only within 25 of an anchor position.\<close>

lemma camera_scan_near_anchor:
  "fst (camera_scan x ps a cc) \<Longrightarrow> \<exists>c \<in> set ps. \<bar>x - c\<bar> < 25"
  by (induction ps) (auto split: if_splits)

lemma deploy_nodes_near_anchor:
  "n \<in> set (deploy_nodes cfg dd cc is a) \<Longrightarrow> has_camera n \<Longrightarrow>
   \<exists>c \<in> set perfect_camera_positions. \<bar>node_x n - c\<bar> < 25"
proof (induction "is" arbitrary: a)
  case Nil
  then show ?case by simp
next
  case (Cons i "is")
  let ?x = "(real i / real (n_sensor_nodes cfg)) * border_length cfg"
  let ?scan = "camera_scan ?x perfect_camera_positions a cc"
  from Cons.prems(1)
  have "n = SensorNode (''SN'' @ zero_pad 2 (decimal (i + 1))) ?x (d_y dd i) (fst ?scan)
              (d_battery dd i) (d_signal dd i)
        \<or> n \<in> set (deploy_nodes cfg dd cc is (snd ?scan))"
    by (simp add: Let_def)
  then show ?case
  proof
    assume n: "n = SensorNode (''SN'' @ zero_pad 2 (decimal (i + 1))) ?x (d_y dd i) (fst ?scan)
              (d_battery dd i) (d_signal dd i)"
    with Cons.prems(2) have "fst ?scan" by (simp add: SensorNode_def)
    then have "\<exists>c \<in> set perfect_camera_positions. \<bar>?x - c\<bar> < 25"
      by (rule camera_scan_near_anchor)
    moreover from n have "node_x n = ?x" by (simp add: SensorNode_def)
    ultimately show ?thesis by simp
  next
    assume "n \<in> set (deploy_nodes cfg dd cc is (snd ?scan))"
    then show ?thesis using Cons.prems(2) by (rule Cons.IH)
  qed
qed

lemma camera_only_near_anchor:
  "n \<in> set (sensor_nodes (deploy_perfect_network cfg dd)) \<Longrightarrow> has_camera n \<Longrightarrow>
   \<exists>c \<in> set perfect_camera_positions. \<bar>node_x n - c\<bar> < 25"
proof -
  assume n: "n \<in> set (sensor_nodes (deploy_perfect_network cfg dd))" and c: "has_camera n"
  from n obtain m where
    m: "m \<in> set (deploy_nodes cfg dd
                    (py_int (real (n_sensor_nodes cfg) * camera_node_percentage cfg))
                    [0..<n_sensor_nodes cfg] [])"
    and nm: "n = assigned (communication_range cfg) (deploy_cluster_heads cfg) m"
    by (auto simp add: deployed_nodes)
  from c nm have "has_camera m" by simp
  with m have "\<exists>c \<in> set perfect_camera_positions. \<bar>node_x m - c\<bar> < 25"
    by (rule deploy_nodes_near_anchor)
  with nm show ?thesis by simp
qed

text \<open>
  Claim C7 at its failing input, the shipped configuration. The quota is 8, and
  deployment flags ten nodes as camera-capable, whatever the random draws: the set
  \<open>camera_assigned\<close> whose size the quota test reads holds anchor positions, so a second
  node near an anchor already in the set (nodes 10 and 23 here) does not count.
\<close>

theorem camera_quota_exceeded:
  "py_int (real (n_sensor_nodes SIMULATION_CONFIG) * camera_node_percentage SIMULATION_CONFIG) = 8
   \<and> map has_camera (sensor_nodes (deploy_perfect_network SIMULATION_CONFIG dd)) =
       [False, False, False, True, False, True, False, False, False, True, True,
        True, False, False, False, False, True, False, False, False, False, True,
        True, True, False, False, False, True, False, False, False, False]
   \<and> length (filter has_camera (sensor_nodes (deploy_perfect_network SIMULATION_CONFIG dd))) = 10"
proof -
  have n: "n_sensor_nodes SIMULATION_CONFIG = 32" by (simp add: SIMULATION_CONFIG_def)
  have q: "py_int (real 32 * camera_node_percentage SIMULATION_CONFIG) = 8"
    using shipped_camera_count by (simp only: n)
  have f: "map has_camera (sensor_nodes (deploy_perfect_network SIMULATION_CONFIG dd)) =
       [False, False, False, True, False, True, False, False, False, True, True,
        True, False, False, False, False, True, False, False, False, False, True,
        True, True, False, False, False, True, False, False, False, False]"
    by (simp only: deployed_nodes n q map_map comp_def assigned_has_camera
          shipped_camera_flags)
  have "length (filter has_camera (sensor_nodes (deploy_perfect_network SIMULATION_CONFIG dd)))
          = length (filter (\<lambda>b. b)
              (map has_camera (sensor_nodes (deploy_perfect_network SIMULATION_CONFIG dd))))"
    by (simp add: filter_map comp_def)
  also have "\<dots> = 10" by (simp only: f) simp
  finally show ?thesis using shipped_camera_count f by blast
qed

end
